theory Spec2Isabelle
  imports Complex_Main
begin

section \<open>Feed entities and the state of DataManager\<close>

text \<open>
  The rows PapaParse yields are objects of text columns. The model keeps the columns the
  planner, the calendar and the trip resolver read. Two conventions:
  \<^item> a time column \<open>HH:MM:SS\<close> is kept as the three numbers that
    \<open>timeStr.split(':').map(Number)\<close> yields, and \<open>timeToSeconds\<close> does the
    arithmetic of the source on them;
  \<^item> \<open>stop_sequence\<close> is kept as the number \<open>parseInt\<close> reads, and a coordinate
    column as the number \<open>parseFloat\<close> reads, \<open>None\<close> when it reads \<open>NaN\<close>.
  JavaScript numbers are modelled as integers (seconds) and reals (distances,
  coordinates, progress). The rounding of doubles is modelled where an integer is made
  of a quotient, in the walk times of the planner; elsewhere it is not part of the model.
\<close>

type_synonym time_text = "int \<times> int \<times> int"

record route =
  route_id :: string
  route_short_name :: string
  route_long_name :: string
  route_color :: string
  route_text_color :: string

record trip =
  trip_id :: string
  trip_route_id :: string
  trip_service_id :: string
  trip_headsign :: string

record stop_time =
  st_trip_id :: string
  arrival_time :: time_text
  departure_time :: time_text
  st_stop_id :: string
  stop_sequence :: int

record stop =
  stop_id :: string
  stop_name :: string
  stop_lat :: "real option"
  stop_lon :: "real option"

record calendar_row =
  cal_service_id :: string
  sunday :: string
  monday :: string
  tuesday :: string
  wednesday :: string
  thursday :: string
  friday :: string
  saturday :: string
  start_date :: string
  end_date :: string

record calendar_date =
  cd_service_id :: string
  cd_date :: string
  exception_type :: string

record coords =
  lat :: "real option"
  lon :: "real option"

text \<open>A vertex of a line geometry is a pair \<open>[lon, lat]\<close>, longitude first.\<close>

type_synonym vertex = "real \<times> real"

text \<open>
  \<open>feature.geometry\<close> of the parsed document is a GeoJSON geometry object
  \<open>{type, coordinates}\<close>; the map renderer reads these two properties of it.
\<close>

record geometry =
  geometry_type :: string
  coordinates :: "vertex list"

record feature =
  feature_route_id :: "string option"
  feature_geometry :: "geometry option"

text \<open>
  An element of the array that \<open>findStopsWithinRadius\<close> returns. \<open>findItinerary\<close> reads
  three properties of it: \<open>stop_id\<close> when it collects the identifiers of the end stops,
  \<open>stop\<close> and \<open>distance\<close> when it makes the initial walk legs. A property \<open>stop_id\<close>
  that the element does not have reads as \<open>undefined\<close>, here \<open>None\<close>.
\<close>

record stop_within =
  sw_stop_id :: "string option"
  sw_stop :: stop
  sw_distance :: real

text \<open>The argument of \<open>getServiceId\<close> and \<open>findItinerary\<close>: the getters of a Date.\<close>

record jsdate =
  getFullYear :: nat
  getMonth :: nat
  getDate :: nat
  getDay :: nat
  getHours :: nat
  getMinutes :: nat
  getSeconds :: nat

text \<open>
  The fields of DataManager after \<open>loadAllData\<close>. Three methods that the pathfinder and
  the position calculator call (\<open>calculateDistance\<close>, \<open>findStopsWithinRadius\<close>,
  \<open>findNearestPointOnRoute\<close>) have no body in the sources at hand; they are fields of the
  record, so every definition below is parametric in them.
\<close>

record dataManager =
  trips :: "trip list"
  stopTimesByTrip :: "string \<rightharpoonup> stop_time list"
  stopTimesByStop :: "string \<rightharpoonup> stop_time list"
  stopsById :: "string \<rightharpoonup> stop"
  routesById :: "string \<rightharpoonup> route"
  tripsByTripId :: "string \<rightharpoonup> trip"
  calendar :: "calendar_row list"
  calendarDates :: "calendar_date list"
  masterStops :: "stop list"
  geoJson :: "feature list option"
  isLoaded :: bool
  calculateDistance :: "real option \<Rightarrow> real option \<Rightarrow> real option \<Rightarrow> real option \<Rightarrow> real"
  findStopsWithinRadius :: "coords \<Rightarrow> real \<Rightarrow> stop_within list"
  findNearestPointOnRoute :: "vertex list \<Rightarrow> real \<Rightarrow> real \<Rightarrow> nat option"

definition timeToSeconds :: "time_text \<Rightarrow> int" where
  "timeToSeconds timeStr =
     (case timeStr of (hours, minutes, seconds) \<Rightarrow> hours * 3600 + minutes * 60 + seconds)"

definition getRoute :: "dataManager \<Rightarrow> string \<Rightarrow> route option" where
  "getRoute dm routeId = routesById dm routeId"

definition getStop :: "dataManager \<Rightarrow> string \<Rightarrow> stop option" where
  "getStop dm stopId = stopsById dm stopId"

definition getStopTimes :: "dataManager \<Rightarrow> string \<Rightarrow> stop_time list" where
  "getStopTimes dm tripId = (case stopTimesByTrip dm tripId of None \<Rightarrow> [] | Some sts \<Rightarrow> sts)"

section \<open>Service calendar: getServiceId\<close>

text \<open>\<open>String(n)\<close> for a natural number, and \<open>padStart(2, '0')\<close>.\<close>

definition digit_char :: "nat \<Rightarrow> char" where
  "digit_char d = ''0123456789'' ! d"

fun String_of_nat :: "nat \<Rightarrow> string" where
  "String_of_nat n =
     (if n < 10 then [digit_char n] else String_of_nat (n div 10) @ [digit_char (n mod 10)])"

declare String_of_nat.simps [simp del]

definition padStart2 :: "string \<Rightarrow> string" where
  "padStart2 s = replicate (2 - length s) CHR ''0'' @ s"

definition dateString :: "jsdate \<Rightarrow> string" where
  "dateString date =
     String_of_nat (getFullYear date) @ padStart2 (String_of_nat (getMonth date + 1))
       @ padStart2 (String_of_nat (getDate date))"

text \<open>The comparison \<open><=\<close> of two strings: lexicographic on the code units.\<close>

fun str_le :: "string \<Rightarrow> string \<Rightarrow> bool" where
  "str_le [] ys = True"
| "str_le (x # xs) [] = False"
| "str_le (x # xs) (y # ys) =
     ((of_char x :: nat) < of_char y \<or> (x = y \<and> str_le xs ys))"

text \<open>
  \<open>s[dayOfWeek]\<close>: the column of the row named after the day \<open>date.getDay()\<close>
  (0 is sunday). A Date has no other day; the model reads no column then.
\<close>

definition dayColumn :: "nat \<Rightarrow> calendar_row \<Rightarrow> string option" where
  "dayColumn d s =
     (if d < 7
      then Some ([sunday s, monday s, tuesday s, wednesday s, thursday s, friday s, saturday s] ! d)
      else None)"

definition rule_matches :: "jsdate \<Rightarrow> calendar_row \<Rightarrow> bool" where
  "rule_matches date s \<longleftrightarrow>
     dayColumn (getDay date) s = Some ''1''
     \<and> str_le (start_date s) (dateString date)
     \<and> str_le (dateString date) (end_date s)"

definition getServiceId :: "dataManager \<Rightarrow> jsdate \<Rightarrow> string option" where
  "getServiceId dm date =
     (case find (\<lambda>d. cd_date d = dateString date) (calendarDates dm) of
        Some exception \<Rightarrow>
          (if exception_type exception = ''1'' then Some (cd_service_id exception) else None)
      | None \<Rightarrow>
          (case find (rule_matches date) (calendar dm) of
             Some service \<Rightarrow> Some (cal_service_id service)
           | None \<Rightarrow> None))"

text \<open>
  Every caller compares a trip's \<open>service_id\<close> with the one identifier returned, after
  the test \<open>!serviceId\<close> (which also refuses the empty string).
\<close>

definition service_active :: "dataManager \<Rightarrow> jsdate \<Rightarrow> string \<Rightarrow> bool" where
  "service_active dm date s \<longleftrightarrow> s \<noteq> [] \<and> getServiceId dm date = Some s"

text \<open>
  The rule of the specification, in its words: a service is active iff some exception of
  type added (\<open>1\<close>) for it matches the date, or no exception of type removed (\<open>2\<close>) for it
  matches the date and some rule for it has a window containing the date and the day's
  bit set.
\<close>

definition spec_service_active :: "dataManager \<Rightarrow> jsdate \<Rightarrow> string \<Rightarrow> bool" where
  "spec_service_active dm date s \<longleftrightarrow>
     list_ex (\<lambda>e. cd_service_id e = s \<and> cd_date e = dateString date \<and> exception_type e = ''1'')
       (calendarDates dm)
     \<or> (\<not> list_ex (\<lambda>e. cd_service_id e = s \<and> cd_date e = dateString date \<and> exception_type e = ''2'')
           (calendarDates dm)
        \<and> list_ex (\<lambda>r. cal_service_id r = s \<and> rule_matches date r) (calendar dm))"

section \<open>Trip resolver: TripScheduler\<close>

datatype trip_state =
  Waiting_at_stop (position: coords) (stopInfo: stop) (nextDepartureTime: int)
| Moving (fromStopInfo: stop) (toStopInfo: stop) (departureTime: int) (arrivalTime: int)
    (progress: real)

definition calculateProgress :: "int \<Rightarrow> int \<Rightarrow> int \<Rightarrow> real" where
  "calculateProgress departure arrival currentTime =
     (let totalDuration = arrival - departure in
      if totalDuration \<le> 0 then 0
      else (let elapsed = currentTime - departure in
            max 0 (min 1 (real_of_int elapsed / real_of_int totalDuration))))"

definition waiting_at :: "stop \<Rightarrow> int \<Rightarrow> trip_state" where
  "waiting_at info departure =
     Waiting_at_stop \<lparr>lat = stop_lat info, lon = stop_lon info\<rparr> info departure"

text \<open>The loop \<open>for (let i = 1; i < stopTimes.length; i++)\<close>, with \<open>stopTimes[i - 1]\<close> carried.\<close>

fun scanStops :: "dataManager \<Rightarrow> stop_time \<Rightarrow> stop_time list \<Rightarrow> int \<Rightarrow> trip_state option" where
  "scanStops dm prevStop [] currentSeconds = None"
| "scanStops dm prevStop (currentStop # rest) currentSeconds =
     (let arrival = timeToSeconds (arrival_time currentStop);
          departure = timeToSeconds (departure_time currentStop);
          prevDeparture = timeToSeconds (departure_time prevStop) in
      if currentSeconds > arrival \<and> currentSeconds \<le> departure then
        (case getStop dm (st_stop_id currentStop) of
           None \<Rightarrow> None
         | Some info \<Rightarrow> Some (waiting_at info departure))
      else if currentSeconds > prevDeparture \<and> currentSeconds \<le> arrival then
        (case getStop dm (st_stop_id prevStop) of
           None \<Rightarrow> None
         | Some prevStopInfo \<Rightarrow>
             (case getStop dm (st_stop_id currentStop) of
                None \<Rightarrow> None
              | Some currentStopInfo \<Rightarrow>
                  Some (Moving prevStopInfo currentStopInfo prevDeparture arrival
                          (calculateProgress prevDeparture arrival currentSeconds))))
      else scanStops dm currentStop rest currentSeconds)"

definition findCurrentState :: "dataManager \<Rightarrow> stop_time list \<Rightarrow> int \<Rightarrow> trip_state option" where
  "findCurrentState dm stopTimes currentSeconds =
     (case stopTimes of
        [] \<Rightarrow> None
      | firstStop # rest \<Rightarrow>
          (let firstArrival = timeToSeconds (arrival_time firstStop);
               firstDeparture = timeToSeconds (departure_time firstStop) in
           if currentSeconds \<ge> firstArrival \<and> currentSeconds \<le> firstDeparture then
             (case getStop dm (st_stop_id firstStop) of
                None \<Rightarrow> None
              | Some info \<Rightarrow> Some (waiting_at info firstDeparture))
           else scanStops dm firstStop rest currentSeconds))"

record active_trip =
  at_tripId :: string
  at_trip :: trip
  at_stopTimes :: "stop_time list"
  at_route :: "route option"

definition DataManager_getActiveTrips :: "dataManager \<Rightarrow> int \<Rightarrow> jsdate \<Rightarrow> active_trip list" where
  "DataManager_getActiveTrips dm currentSeconds date =
     (case getServiceId dm date of
        None \<Rightarrow> []
      | Some serviceId \<Rightarrow>
          if serviceId = [] then []
          else concat (map (\<lambda>trip.
            if trip_service_id trip = serviceId then
              (case stopTimesByTrip dm (trip_id trip) of
                 None \<Rightarrow> []
               | Some stopTimes \<Rightarrow>
                   if length stopTimes < 2 then []
                   else (let firstStop = stopTimes ! 0;
                             lastStop = stopTimes ! (length stopTimes - 1);
                             startTime = timeToSeconds (departure_time firstStop);
                             endTime = timeToSeconds (arrival_time lastStop) in
                         if currentSeconds \<ge> startTime \<and> currentSeconds \<le> endTime then
                           [\<lparr>at_tripId = trip_id trip, at_trip = trip, at_stopTimes = stopTimes,
                             at_route = routesById dm (trip_route_id trip)\<rparr>]
                         else []))
            else []) (trips dm)))"

record bus =
  bus_tripId :: string
  bus_trip :: trip
  bus_route :: "route option"
  bus_segment :: "trip_state option"
  bus_position :: "coords option"
  bus_currentSeconds :: int

definition TripScheduler_getActiveTrips :: "dataManager \<Rightarrow> int \<Rightarrow> jsdate \<Rightarrow> bus list" where
  "TripScheduler_getActiveTrips dm currentSeconds date =
     (if \<not> isLoaded dm then []
      else concat (map (\<lambda>a.
        case findCurrentState dm (at_stopTimes a) currentSeconds of
          None \<Rightarrow> []
        | Some state \<Rightarrow>
            [\<lparr>bus_tripId = at_tripId a, bus_trip = at_trip a, bus_route = at_route a,
              bus_segment = (case state of Moving _ _ _ _ _ \<Rightarrow> Some state | _ \<Rightarrow> None),
              bus_position = (case state of Waiting_at_stop p _ _ \<Rightarrow> Some p | _ \<Rightarrow> None),
              bus_currentSeconds = currentSeconds\<rparr>])
        (DataManager_getActiveTrips dm currentSeconds date)))"

text \<open>
  The invariants of the data model that the resolver's theorems assume: the times of a
  trip, read stop by stop as arrival then departure, never decrease; every event's stop
  is known to the catalog.
\<close>

definition stop_seconds :: "stop_time list \<Rightarrow> int list" where
  "stop_seconds stopTimes =
     concat (map (\<lambda>st. [timeToSeconds (arrival_time st), timeToSeconds (departure_time st)]) stopTimes)"

definition stops_known :: "dataManager \<Rightarrow> stop_time list \<Rightarrow> bool" where
  "stops_known dm stopTimes = list_all (\<lambda>st. getStop dm (st_stop_id st) \<noteq> None) stopTimes"

section \<open>LocalPathfinder\<close>

subsection \<open>The priority queue\<close>

text \<open>
  \<open>enqueue\<close> inserts an element \<open>[value, priority]\<close> before the first element of strictly
  greater priority, and at the end when there is none; \<open>dequeue\<close> takes the head.
\<close>

fun enqueue :: "'a \<times> int \<Rightarrow> ('a \<times> int) list \<Rightarrow> ('a \<times> int) list" where
  "enqueue element [] = [element]"
| "enqueue element (c # collection) =
     (if snd element < snd c then element # c # collection
      else c # enqueue element collection)"

subsection \<open>Numbers\<close>

text \<open>
  A number of the source is an IEEE 754 double, and the quotient in
  \<open>Math.ceil(distance / this.WALK_SPEED_MPS)\<close> is rounded to the nearest double, ties to
  even, before \<open>Math.ceil\<close> sees it. A double is modelled by the real it denotes;
  \<open>toDouble\<close> rounds a real to the nearest double: 53 significant bits in the binade
  of the number, and steps of \<open>2^-1074\<close> below \<open>2^-1022\<close>. A real beyond the largest double,
  which the quotient of a double by the walking speed never is, is rounded in the same way.
\<close>

fun bitLength :: "nat \<Rightarrow> nat" where
  "bitLength n = (if n = 0 then 0 else Suc (bitLength (n div 2)))"

declare bitLength.simps [simp del]

definition pow2 :: "int \<Rightarrow> real" where
  "pow2 k = (if 0 \<le> k then 2 ^ nat k else 1 / 2 ^ nat (- k))"

text \<open>The binary exponent \<open>e\<close> of a positive real \<open>x\<close>: \<open>2^e \<le> x < 2^(e+1)\<close>.\<close>

definition exponent :: "real \<Rightarrow> int" where
  "exponent x =
     (if 1 \<le> x then int (bitLength (nat \<lfloor>x\<rfloor>)) - 1
      else - int (bitLength (nat (\<lceil>1 / x\<rceil> - 1))))"

definition roundHalfEven :: "real \<Rightarrow> int" where
  "roundHalfEven x =
     (let n = \<lfloor>x\<rfloor>; r = x - of_int n in
      if r < 1 / 2 then n else if 1 / 2 < r then n + 1 else if even n then n else n + 1)"

definition toDouble :: "real \<Rightarrow> real" where
  "toDouble x =
     (if x = 0 then 0
      else (let ulp = pow2 (max (exponent \<bar>x\<bar>) (- 1022) - 52) in
            of_int (roundHalfEven (x / ulp)) * ulp))"

subsection \<open>The transfer index\<close>

text \<open>The literal \<open>1.4\<close> denotes the double nearest to it.\<close>

definition WALK_SPEED_MPS :: real where
  "WALK_SPEED_MPS = toDouble 1.4"

definition MAX_WALK_METERS :: real where
  "MAX_WALK_METERS = 500"

record transfer =
  tr_toStopId :: string
  walkTime :: int
  tr_distance :: real

text \<open>The inner loop over \<open>j\<close> of \<open>prebuildTransferMap\<close>, for one \<open>i\<close>.\<close>

definition transfersFrom :: "dataManager \<Rightarrow> stop list \<Rightarrow> nat \<Rightarrow> transfer list" where
  "transfersFrom dm stops i =
     concat (map (\<lambda>j.
       if i = j then []
       else (let fromStop = stops ! i; toStop = stops ! j;
                 d = calculateDistance dm (stop_lat fromStop) (stop_lon fromStop)
                       (stop_lat toStop) (stop_lon toStop) in
             if d \<le> MAX_WALK_METERS
             then [\<lparr>tr_toStopId = stop_id toStop, walkTime = \<lceil>toDouble (d / WALK_SPEED_MPS)\<rceil>,
                    tr_distance = d\<rparr>]
             else []))
       [0..<length stops])"

definition prebuildTransferMap :: "dataManager \<Rightarrow> (string \<rightharpoonup> transfer list)" where
  "prebuildTransferMap dm =
     (let stops = masterStops dm in
      fold (\<lambda>i transferMap. transferMap(stop_id (stops ! i) \<mapsto> transfersFrom dm stops i))
        [0..<length stops] Map.empty)"

record localPathfinder =
  pf_dataManager :: dataManager
  pf_transferMap :: "string \<rightharpoonup> transfer list"

text \<open>The constructor: the transfer index is built once, from the master stops.\<close>

definition newLocalPathfinder :: "dataManager \<Rightarrow> localPathfinder" where
  "newLocalPathfinder dm = \<lparr>pf_dataManager = dm, pf_transferMap = prebuildTransferMap dm\<rparr>"

subsection \<open>Legs, labels and back-links\<close>

datatype leg_kind = WALK | BUS

text \<open>A leg object; a property that an object literal of the source does not set is \<open>None\<close>.\<close>

record leg =
  kind :: leg_kind
  fromStopId :: "string option"
  fromStopName :: "string option"
  fromCoords :: "coords option"
  toStopId :: "string option"
  toStopName :: "string option"
  toCoords :: "coords option"
  startTime :: int
  endTime :: int
  duration :: int
  distance :: "real option"
  leg_route :: "route option"
  leg_tripId :: "string option"
  headsign :: "string option"

record back_link =
  link_leg :: leg
  prevStopId :: string

record search =
  pq :: "(leg \<times> int) list"
  minArrivalTime :: "string \<rightharpoonup> int"
  backLink :: "string \<rightharpoonup> back_link"

text \<open>
  The value of \<open>minArrivalTime.get(id) || Infinity\<close>: \<open>Infinity\<close> when the stop has no
  label, and also when its label is 0, since 0 is falsy.
\<close>

datatype bound = Infinity | Finite int

definition labelOrInfinity :: "(string \<rightharpoonup> int) \<Rightarrow> string \<Rightarrow> bound" where
  "labelOrInfinity labels stopId =
     (case labels stopId of None \<Rightarrow> Infinity | Some v \<Rightarrow> if v = 0 then Infinity else Finite v)"

fun less_bound :: "int \<Rightarrow> bound \<Rightarrow> bool" where
  "less_bound x Infinity = True"
| "less_bound x (Finite v) = (x < v)"

fun greater_bound :: "int \<Rightarrow> bound \<Rightarrow> bool" where
  "greater_bound x Infinity = False"
| "greater_bound x (Finite v) = (x > v)"

text \<open>
  Reading a property of \<open>null\<close> or \<open>undefined\<close> throws a TypeError; a \<open>push\<close> on an
  array that has reached the largest array length throws a RangeError. \<open>findItinerary\<close>
  has no handler, so an error is the outcome of the call (its promise rejects).
\<close>

datatype js_error = TypeError | RangeError

subsection \<open>The search\<close>

text \<open>The initial walk legs, one per start stop.\<close>

definition initStart :: "coords \<Rightarrow> int \<Rightarrow> stop_within \<Rightarrow> search \<Rightarrow> search" where
  "initStart startCoords departureTimeSeconds startStop s =
     (let st = sw_stop startStop; metres = sw_distance startStop;
          walk = \<lceil>toDouble (metres / WALK_SPEED_MPS)\<rceil>;
          arrival = departureTimeSeconds + walk;
          l = \<lparr>kind = WALK, fromStopId = None, fromStopName = None,
                 fromCoords = Some startCoords,
                 toStopId = Some (stop_id st), toStopName = Some (stop_name st),
                 toCoords = Some \<lparr>lat = stop_lat st, lon = stop_lon st\<rparr>,
                 startTime = departureTimeSeconds, endTime = arrival, duration = walk,
                 distance = Some metres, leg_route = None, leg_tripId = None, headsign = None\<rparr> in
      s\<lparr>pq := enqueue (l, arrival) (pq s),
        minArrivalTime := (minArrivalTime s)(stop_id st \<mapsto> arrival),
        backLink := (backLink s)(stop_id st \<mapsto> \<lparr>link_leg = l, prevStopId = ''START''\<rparr>)\<rparr>)"

text \<open>
  One candidate of the bus expansion: the event \<open>nextStopOnTrip\<close> later on the trip
  boarded at the event \<open>st\<close>.
\<close>

definition relaxBus ::
  "dataManager \<Rightarrow> trip \<Rightarrow> stop_time \<Rightarrow> int \<Rightarrow> string \<Rightarrow> stop_time \<Rightarrow> search \<Rightarrow> js_error + search" where
  "relaxBus dm tr st depTime currentStopId nextStopOnTrip s =
     (let nextStopId = st_stop_id nextStopOnTrip;
          nextArrivalTime = timeToSeconds (arrival_time nextStopOnTrip) in
      if less_bound nextArrivalTime (labelOrInfinity (minArrivalTime s) nextStopId) then
        (case getStop dm (st_stop_id st) of
           None \<Rightarrow> Inl TypeError
         | Some fromStop \<Rightarrow>
             (case getStop dm nextStopId of
                None \<Rightarrow> Inl TypeError
              | Some toStop \<Rightarrow>
                  (let busLeg =
                     \<lparr>kind = BUS, fromStopId = Some (st_stop_id st),
                      fromStopName = Some (stop_name fromStop), fromCoords = None,
                      toStopId = Some nextStopId, toStopName = Some (stop_name toStop),
                      toCoords = None, startTime = depTime, endTime = nextArrivalTime,
                      duration = nextArrivalTime - depTime, distance = None,
                      leg_route = getRoute dm (trip_route_id tr),
                      leg_tripId = Some (trip_id tr), headsign = Some (trip_headsign tr)\<rparr> in
                   Inr (s\<lparr>pq := enqueue (busLeg, nextArrivalTime) (pq s),
                          minArrivalTime := (minArrivalTime s)(nextStopId \<mapsto> nextArrivalTime),
                          backLink := (backLink s)(nextStopId \<mapsto>
                            \<lparr>link_leg = busLeg, prevStopId = currentStopId\<rparr>)\<rparr>))))
      else Inr s)"

text \<open>The loop over the events of the boarded trip.\<close>

fun relaxTripStops ::
  "dataManager \<Rightarrow> trip \<Rightarrow> stop_time \<Rightarrow> int \<Rightarrow> string \<Rightarrow> stop_time list \<Rightarrow> search \<Rightarrow> js_error + search" where
  "relaxTripStops dm tr st depTime currentStopId [] s = Inr s"
| "relaxTripStops dm tr st depTime currentStopId (nextStopOnTrip # tripStops) s =
     (if stop_sequence nextStopOnTrip > stop_sequence st then
        (case relaxBus dm tr st depTime currentStopId nextStopOnTrip s of
           Inl e \<Rightarrow> Inl e
         | Inr s' \<Rightarrow> relaxTripStops dm tr st depTime currentStopId tripStops s')
      else relaxTripStops dm tr st depTime currentStopId tripStops s)"

text \<open>The loop over the events at the current stop.\<close>

fun expandBus ::
  "dataManager \<Rightarrow> string \<Rightarrow> string \<Rightarrow> int \<Rightarrow> stop_time list \<Rightarrow> search \<Rightarrow> js_error + search" where
  "expandBus dm serviceId currentStopId currentArrivalTime [] s = Inr s"
| "expandBus dm serviceId currentStopId currentArrivalTime (st # departures) s =
     (case tripsByTripId dm (st_trip_id st) of
        None \<Rightarrow> Inl TypeError
      | Some tr \<Rightarrow>
          (let depTime = timeToSeconds (departure_time st) in
           if trip_service_id tr = serviceId \<and> depTime \<ge> currentArrivalTime then
             (case relaxTripStops dm tr st depTime currentStopId
                     (getStopTimes dm (st_trip_id st)) s of
                Inl e \<Rightarrow> Inl e
              | Inr s' \<Rightarrow> expandBus dm serviceId currentStopId currentArrivalTime departures s')
           else expandBus dm serviceId currentStopId currentArrivalTime departures s))"

text \<open>One candidate of the walk expansion.\<close>

definition relaxWalk ::
  "dataManager \<Rightarrow> string \<Rightarrow> int \<Rightarrow> transfer \<Rightarrow> search \<Rightarrow> js_error + search" where
  "relaxWalk dm currentStopId currentArrivalTime tf s =
     (let newArrivalTime = currentArrivalTime + walkTime tf in
      if less_bound newArrivalTime (labelOrInfinity (minArrivalTime s) (tr_toStopId tf)) then
        (case getStop dm currentStopId of
           None \<Rightarrow> Inl TypeError
         | Some fromStop \<Rightarrow>
             (case getStop dm (tr_toStopId tf) of
                None \<Rightarrow> Inl TypeError
              | Some toStop \<Rightarrow>
                  (let walkLeg =
                     \<lparr>kind = WALK, fromStopId = Some currentStopId,
                      fromStopName = Some (stop_name fromStop),
                      fromCoords = Some \<lparr>lat = stop_lat fromStop, lon = stop_lon fromStop\<rparr>,
                      toStopId = Some (tr_toStopId tf), toStopName = Some (stop_name toStop),
                      toCoords = Some \<lparr>lat = stop_lat toStop, lon = stop_lon toStop\<rparr>,
                      startTime = currentArrivalTime, endTime = newArrivalTime,
                      duration = walkTime tf, distance = Some (tr_distance tf),
                      leg_route = None, leg_tripId = None, headsign = None\<rparr> in
                   Inr (s\<lparr>pq := enqueue (walkLeg, newArrivalTime) (pq s),
                          minArrivalTime := (minArrivalTime s)(tr_toStopId tf \<mapsto> newArrivalTime),
                          backLink := (backLink s)(tr_toStopId tf \<mapsto>
                            \<lparr>link_leg = walkLeg, prevStopId = currentStopId\<rparr>)\<rparr>))))
      else Inr s)"

fun expandWalk ::
  "dataManager \<Rightarrow> string \<Rightarrow> int \<Rightarrow> transfer list \<Rightarrow> search \<Rightarrow> js_error + search" where
  "expandWalk dm currentStopId currentArrivalTime [] s = Inr s"
| "expandWalk dm currentStopId currentArrivalTime (tf # transfers) s =
     (case relaxWalk dm currentStopId currentArrivalTime tf s of
        Inl e \<Rightarrow> Inl e
      | Inr s' \<Rightarrow> expandWalk dm currentStopId currentArrivalTime transfers s')"

text \<open>
  The body of the loop \<open>while (!pq.isEmpty())\<close>, for the element dequeued and the state
  left: it goes on to the next iteration, it breaks with \<open>finalStopId\<close> set, or it throws.
  Every leg the code enqueues has a \<open>toStopId\<close>, so the first case below is not met in
  a run of \<open>findItinerary\<close>. For a leg without one \<open>currentStopId\<close> is \<open>undefined\<close>: no
  label and no transfer list is stored under it, the loop breaks if an end stop has no
  \<open>stop_id\<close> either, and otherwise the model takes the events read under the property
  name \<open>undefined\<close> of \<open>stopTimesByStop\<close> to be none.
\<close>

datatype step = Continue search | Break "string option" search | Throw js_error

definition loopBody ::
  "localPathfinder \<Rightarrow> string \<Rightarrow> string option set \<Rightarrow> leg \<times> int \<Rightarrow> search \<Rightarrow> step" where
  "loopBody pf serviceId endStopIds element s1 =
     (case element of (currentLeg, currentArrivalTime) \<Rightarrow>
        (case toStopId currentLeg of
           None \<Rightarrow> if None \<in> endStopIds then Break None s1 else Continue s1
         | Some currentStopId \<Rightarrow>
             if greater_bound currentArrivalTime
                  (labelOrInfinity (minArrivalTime s1) currentStopId)
             then Continue s1
             else if Some currentStopId \<in> endStopIds then Break (Some currentStopId) s1
             else
               (case expandBus (pf_dataManager pf) serviceId currentStopId currentArrivalTime
                       (case stopTimesByStop (pf_dataManager pf) currentStopId of
                          None \<Rightarrow> [] | Some departures \<Rightarrow> departures) s1 of
                  Inl e \<Rightarrow> Throw e
                | Inr s2 \<Rightarrow>
                    (case expandWalk (pf_dataManager pf) currentStopId currentArrivalTime
                            (case pf_transferMap pf currentStopId of
                               None \<Rightarrow> [] | Some transfers \<Rightarrow> transfers) s2 of
                       Inl e \<Rightarrow> Throw e
                     | Inr s3 \<Rightarrow> Continue s3))))"

text \<open>
  The loop itself. Nothing bounds the number of its iterations, so the model counts them
  down from a fuel: \<open>None\<close> is a run that has not ended within the fuel. A result is the
  error thrown, or \<open>finalStopId\<close> (\<open>None\<close> for \<open>null\<close> and \<open>undefined\<close>) together with the
  final state.
\<close>

fun dijkstra ::
  "nat \<Rightarrow> localPathfinder \<Rightarrow> string \<Rightarrow> string option set \<Rightarrow> search
     \<Rightarrow> (js_error + string option \<times> search) option" where
  "dijkstra 0 pf serviceId endStopIds s = None"
| "dijkstra (Suc fuel) pf serviceId endStopIds s =
     (case pq s of
        [] \<Rightarrow> Some (Inr (None, s))
      | element # collection \<Rightarrow>
          (case loopBody pf serviceId endStopIds element (s\<lparr>pq := collection\<rparr>) of
             Throw e \<Rightarrow> Some (Inl e)
           | Break finalStopId s1 \<Rightarrow> Some (Inr (finalStopId, s1))
           | Continue s1 \<Rightarrow> dijkstra fuel pf serviceId endStopIds s1))"

text \<open>
  The state at the head of the loop after a number of iterations that have all gone on
  to the next one; \<open>None\<close> when the loop has ended before.
\<close>

fun afterIterations ::
  "nat \<Rightarrow> localPathfinder \<Rightarrow> string \<Rightarrow> string option set \<Rightarrow> search \<Rightarrow> search option" where
  "afterIterations 0 pf serviceId endStopIds s = Some s"
| "afterIterations (Suc k) pf serviceId endStopIds s =
     (case pq s of
        [] \<Rightarrow> None
      | element # collection \<Rightarrow>
          (case loopBody pf serviceId endStopIds element (s\<lparr>pq := collection\<rparr>) of
             Continue s1 \<Rightarrow> afterIterations k pf serviceId endStopIds s1
           | Break finalStopId s1 \<Rightarrow> None
           | Throw e \<Rightarrow> None))"


text \<open>Every leg in the queue names the stop it leads to.\<close>

definition queueNamesStops :: "search \<Rightarrow> bool" where
  "queueNamesStops s = list_all (\<lambda>element. toStopId (fst element) \<noteq> None) (pq s)"

subsection \<open>Path reconstruction\<close>

text \<open>
  The loop \<open>while (currentLink.prevStopId !== 'START')\<close> of \<open>reconstructPath\<close>. Each
  iteration pushes a leg, and an array holds at most \<open>2^32 - 1\<close> elements: on a cycle of
  back-links the loop ends with the RangeError of the \<open>push\<close> that finds the array full.
  A link to a stop without a back-link ends it with a TypeError.
\<close>

definition MAX_ARRAY_LENGTH :: nat where
  "MAX_ARRAY_LENGTH = 4294967295"

function followLinks ::
  "(string \<rightharpoonup> back_link) \<Rightarrow> back_link \<Rightarrow> leg list \<Rightarrow> js_error + leg list" where
  "followLinks links currentLink legs =
     (if prevStopId currentLink \<noteq> ''START'' then
        if MAX_ARRAY_LENGTH \<le> length legs then Inl RangeError
        else
          (case links (prevStopId currentLink) of
             None \<Rightarrow> Inl TypeError
           | Some nextLink \<Rightarrow> followLinks links nextLink (legs @ [link_leg currentLink]))
      else if MAX_ARRAY_LENGTH \<le> length legs then Inl RangeError
      else Inr (legs @ [link_leg currentLink]))"
  by pat_completeness auto

termination followLinks
  by (relation "measure (\<lambda>(links, currentLink, legs). MAX_ARRAY_LENGTH - length legs)") auto

declare followLinks.simps [simp del]

record path_result =
  legs :: "leg list"
  totalDuration :: int

definition reconstructPath ::
  "dataManager \<Rightarrow> (string \<rightharpoonup> back_link) \<Rightarrow> string \<Rightarrow> coords \<Rightarrow> js_error + path_result" where
  "reconstructPath dm links finalStopId endCoords =
     (case getStop dm finalStopId of
        None \<Rightarrow> Inl TypeError
      | Some finalStop \<Rightarrow>
          (let finalDistance = calculateDistance dm (stop_lat finalStop) (stop_lon finalStop)
                                 (lat endCoords) (lon endCoords);
               finalWalkTime = \<lceil>toDouble (finalDistance / WALK_SPEED_MPS)\<rceil> in
           case links finalStopId of
             None \<Rightarrow> Inl TypeError
           | Some finalLink \<Rightarrow>
               (let finalLegArrivalTime = endTime (link_leg finalLink);
                    finalWalkLeg =
                      \<lparr>kind = WALK, fromStopId = Some finalStopId,
                       fromStopName = Some (stop_name finalStop),
                       fromCoords = Some \<lparr>lat = stop_lat finalStop, lon = stop_lon finalStop\<rparr>,
                       toStopId = None, toStopName = None, toCoords = Some endCoords,
                       startTime = finalLegArrivalTime,
                       endTime = finalLegArrivalTime + finalWalkTime,
                       duration = finalWalkTime, distance = Some finalDistance,
                       leg_route = None, leg_tripId = None, headsign = None\<rparr> in
                case followLinks links finalLink [finalWalkLeg] of
                  Inl e \<Rightarrow> Inl e
                | Inr collected \<Rightarrow>
                    (let reversedLegs = rev collected in
                     Inr \<lparr>legs = reversedLegs,
                          totalDuration =
                            endTime (reversedLegs ! (length reversedLegs - 1))
                              - startTime (reversedLegs ! 0)\<rparr>))))"

subsection \<open>findItinerary\<close>

datatype status = OK | NO_SERVICE | NO_START_STOPS | NO_END_STOPS | NO_PATH_FOUND

text \<open>The object returned; \<open>stats.calcTime\<close>, a reading of the wall clock, is left out.\<close>

record itinerary =
  status :: status
  path :: "leg list"
  stats_duration :: "int option"

definition noItinerary :: "status \<Rightarrow> itinerary" where
  "noItinerary st = \<lparr>status = st, path = [], stats_duration = None\<rparr>"

text \<open>
  The fuel is that of the main loop. \<open>endStopIds\<close> is the set of the values read as
  \<open>s.stop_id\<close> on the elements of \<open>endStops\<close>.
\<close>

definition findItinerary ::
  "nat \<Rightarrow> localPathfinder \<Rightarrow> coords \<Rightarrow> coords \<Rightarrow> jsdate \<Rightarrow> (js_error + itinerary) option" where
  "findItinerary fuel pf startCoords endCoords departureDate =
     (let dm = pf_dataManager pf;
          departureTimeSeconds =
            int (getHours departureDate) * 3600 + int (getMinutes departureDate) * 60
              + int (getSeconds departureDate) in
      case getServiceId dm departureDate of
        None \<Rightarrow> Some (Inr (noItinerary NO_SERVICE))
      | Some serviceId \<Rightarrow>
          if serviceId = [] then Some (Inr (noItinerary NO_SERVICE))
          else
            (let startStops = findStopsWithinRadius dm startCoords MAX_WALK_METERS in
             if startStops = [] then Some (Inr (noItinerary NO_START_STOPS))
             else
               (let endStops = findStopsWithinRadius dm endCoords MAX_WALK_METERS;
                    endStopIds = set (map sw_stop_id endStops) in
                if endStops = [] then Some (Inr (noItinerary NO_END_STOPS))
                else
                  (case dijkstra fuel pf serviceId endStopIds
                          (fold (initStart startCoords departureTimeSeconds) startStops
                             \<lparr>pq = [], minArrivalTime = Map.empty, backLink = Map.empty\<rparr>) of
                     None \<Rightarrow> None
                   | Some (Inl e) \<Rightarrow> Some (Inl e)
                   | Some (Inr (None, s)) \<Rightarrow> Some (Inr (noItinerary NO_PATH_FOUND))
                   | Some (Inr (Some finalStopId, s)) \<Rightarrow>
                       if finalStopId = [] then Some (Inr (noItinerary NO_PATH_FOUND))
                       else
                         (case reconstructPath dm (backLink s) finalStopId endCoords of
                            Inl e \<Rightarrow> Some (Inl e)
                          | Inr p \<Rightarrow>
                              Some (Inr \<lparr>status = OK, path = legs p,
                                         stats_duration = Some (totalDuration p)\<rparr>))))))"

section \<open>Position interpolator: BusPositionCalculator\<close>

text \<open>The object \<open>{lat, lon, progress}\<close> that the calculator returns.\<close>

record bus_position =
  pos_lat :: real
  pos_lon :: real
  pos_progress :: real


text \<open>\<open>xs.slice(start, end)\<close> for indices that are not negative.\<close>

definition slice :: "'a list \<Rightarrow> nat \<Rightarrow> nat \<Rightarrow> 'a list" where
  "slice xs start stop = take (stop - start) (drop start xs)"

definition pathSegmentOf :: "vertex list \<Rightarrow> nat \<Rightarrow> nat \<Rightarrow> vertex list" where
  "pathSegmentOf routeCoordinates fromIndex toIndex =
     (if fromIndex < toIndex then slice routeCoordinates fromIndex (toIndex + 1)
      else rev (slice routeCoordinates toIndex (fromIndex + 1)))"

text \<open>
  The cumulative distances along the segment: \<open>distances[0] = 0\<close> and
  \<open>distances[i] = distances[i - 1] + calculateDistance(lat1, lon1, lat2, lon2)\<close>.
\<close>

fun cumulativeDistances :: "dataManager \<Rightarrow> vertex \<Rightarrow> real \<Rightarrow> vertex list \<Rightarrow> real list" where
  "cumulativeDistances dm previous sofar [] = []"
| "cumulativeDistances dm previous sofar (v # vs) =
     (let d = sofar + calculateDistance dm (Some (snd previous)) (Some (fst previous))
                        (Some (snd v)) (Some (fst v)) in
      d # cumulativeDistances dm v d vs)"

definition distancesAlong :: "dataManager \<Rightarrow> vertex list \<Rightarrow> real list" where
  "distancesAlong dm pathSegment =
     (case pathSegment of [] \<Rightarrow> [0] | v # vs \<Rightarrow> 0 # cumulativeDistances dm v 0 vs)"

text \<open>
  The loop that looks for the piece of the segment holding the target distance, over
  the vertices and their cumulative distances side by side; \<open>None\<close> when it finds none.
\<close>

fun locate :: "vertex list \<Rightarrow> real list \<Rightarrow> real \<Rightarrow> real \<Rightarrow> bus_position option" where
  "locate (v1 # v2 # vs) (d1 # d2 # ds) targetDistance p =
     (if targetDistance \<ge> d1 \<and> targetDistance \<le> d2 then
        (let segmentDistance = d2 - d1;
             segmentProgress =
               (if segmentDistance > 0 then (targetDistance - d1) / segmentDistance else 0) in
         Some \<lparr>pos_lat = snd v1 + (snd v2 - snd v1) * segmentProgress,
               pos_lon = fst v1 + (fst v2 - fst v1) * segmentProgress,
               pos_progress = p\<rparr>)
      else locate (v2 # vs) (d2 # ds) targetDistance p)"
| "locate vs ds targetDistance p = None"

definition interpolateAlongRoute ::
  "dataManager \<Rightarrow> vertex list \<Rightarrow> real \<Rightarrow> real \<Rightarrow> real \<Rightarrow> real \<Rightarrow> real \<Rightarrow> bus_position option" where
  "interpolateAlongRoute dm routeCoordinates fromLat fromLon toLat toLon p =
     (case findNearestPointOnRoute dm routeCoordinates fromLat fromLon of
        None \<Rightarrow> None
      | Some fromIndex \<Rightarrow>
          (case findNearestPointOnRoute dm routeCoordinates toLat toLon of
             None \<Rightarrow> None
           | Some toIndex \<Rightarrow>
               if fromIndex = toIndex then None
               else
                 (let pathSegment = pathSegmentOf routeCoordinates fromIndex toIndex in
                  if length pathSegment < 2 then None
                  else
                    (let distances = distancesAlong dm pathSegment;
                         totalDistance = distances ! (length distances - 1) in
                     if totalDistance = 0 then None
                     else
                       (let targetDistance = totalDistance * p in
                        case locate pathSegment distances targetDistance p of
                          Some r \<Rightarrow> Some r
                        | None \<Rightarrow>
                            (let v = pathSegment ! (length pathSegment - 1) in
                             Some \<lparr>pos_lat = snd v, pos_lon = fst v, pos_progress = p\<rparr>))))))"



text \<open>Consecutive vertices of a segment are at a positive distance from each other.\<close>

fun positive_steps :: "dataManager \<Rightarrow> vertex list \<Rightarrow> bool" where
  "positive_steps dm (v1 # v2 # vs) =
     (0 < calculateDistance dm (Some (snd v1)) (Some (fst v1)) (Some (snd v2)) (Some (fst v2))
      \<and> positive_steps dm (v2 # vs))"
| "positive_steps dm vs = True"

section \<open>A small feed\<close>

text \<open>
  One trip \<open>T1\<close> of three stops with a dwell of a minute at the middle one, a trip
  \<open>T2\<close> of a single event, and two weekday services \<open>A\<close> and \<open>B\<close> whose rules both
  cover Monday 15 January 2024.
\<close>

definition emptyDataManager :: dataManager where
  "emptyDataManager =
     \<lparr>trips = [], stopTimesByTrip = Map.empty, stopTimesByStop = Map.empty, stopsById = Map.empty,
      routesById = Map.empty, tripsByTripId = Map.empty, calendar = [], calendarDates = [],
      masterStops = [], geoJson = None, isLoaded = True,
      calculateDistance = (\<lambda>lat1 lon1 lat2 lon2. 0),
      findStopsWithinRadius = (\<lambda>c r. []),
      findNearestPointOnRoute = (\<lambda>route la lo. None)\<rparr>"

definition weekdays :: "string \<Rightarrow> calendar_row" where
  "weekdays s =
     \<lparr>cal_service_id = s, sunday = ''0'', monday = ''1'', tuesday = ''1'', wednesday = ''1'',
      thursday = ''1'', friday = ''1'', saturday = ''0'',
      start_date = ''20240101'', end_date = ''20241231''\<rparr>"

definition demoDate :: jsdate where
  "demoDate = \<lparr>getFullYear = 2024, getMonth = 0, getDate = 15, getDay = 1,
      getHours = 8, getMinutes = 0, getSeconds = 0\<rparr>"

definition demoStop :: "string \<Rightarrow> real \<Rightarrow> real \<Rightarrow> stop" where
  "demoStop name la lo = \<lparr>stop_id = name, stop_name = name, stop_lat = Some la, stop_lon = Some lo\<rparr>"

definition demoEvent :: "string \<Rightarrow> int \<Rightarrow> string \<Rightarrow> time_text \<Rightarrow> time_text \<Rightarrow> stop_time" where
  "demoEvent tripId seq stopId arr dep =
     \<lparr>st_trip_id = tripId, arrival_time = arr, departure_time = dep, st_stop_id = stopId,
      stop_sequence = seq\<rparr>"

definition demoTimes :: "stop_time list" where
  "demoTimes =
     [demoEvent ''T1'' 1 ''S1'' (8, 0, 0) (8, 0, 0),
      demoEvent ''T1'' 2 ''S2'' (8, 5, 0) (8, 6, 0),
      demoEvent ''T1'' 3 ''S3'' (8, 12, 0) (8, 12, 0)]"

text \<open>The same trip with no running time between the second and the third stop.\<close>

definition tightTimes :: "stop_time list" where
  "tightTimes =
     [demoEvent ''T1'' 1 ''S1'' (8, 0, 0) (8, 0, 0),
      demoEvent ''T1'' 2 ''S2'' (8, 5, 0) (8, 6, 0),
      demoEvent ''T1'' 3 ''S3'' (8, 6, 0) (8, 7, 0),
      demoEvent ''T1'' 4 ''S1'' (8, 12, 0) (8, 12, 0)]"

definition demoTrip :: "string \<Rightarrow> string \<Rightarrow> trip" where
  "demoTrip tripId serviceId =
     \<lparr>trip_id = tripId, trip_route_id = ''R1'', trip_service_id = serviceId, trip_headsign = ''S3''\<rparr>"

definition demoFeed :: dataManager where
  "demoFeed = emptyDataManager
     \<lparr>trips := [demoTrip ''T1'' ''A'', demoTrip ''T2'' ''A'', demoTrip ''T3'' ''B''],
      stopTimesByTrip := [''T1'' \<mapsto> demoTimes, ''T2'' \<mapsto> [demoEvent ''T2'' 1 ''S1'' (8, 0, 0) (8, 10, 0)],
                          ''T3'' \<mapsto> demoTimes],
      stopsById := [''S1'' \<mapsto> demoStop ''S1'' 45.18 0.71, ''S2'' \<mapsto> demoStop ''S2'' 45.19 0.72,
                    ''S3'' \<mapsto> demoStop ''S3'' 45.2 0.73],
      calendar := [weekdays ''A'', weekdays ''B'']\<rparr>"

section \<open>A feed at midnight\<close>

text \<open>
  Modelled from the spec: the great-circle distance (section 4.4) that
  \<open>DataManager.calculateDistance\<close>, whose body is not in the sources, computes; here for
  points of the equator only, where it is the Earth's radius times the difference of the
  longitudes, 111195 metres per degree. It is the distance function of the feeds below,
  whose stops all lie on the equator.
\<close>

definition equatorDistance :: "real option \<Rightarrow> real option \<Rightarrow> real option \<Rightarrow> real option \<Rightarrow> real" where
  "equatorDistance lat1 lon1 lat2 lon2 =
     (case (lon1, lon2) of (Some a, Some b) \<Rightarrow> 111195 * \<bar>b - a\<bar> | _ \<Rightarrow> 0)"

text \<open>
  Modelled from the spec: the master stops within the radius of a point, each with its
  distance (section 4.5: every master stop within \<open>MAX_WALK_METERS\<close> of the point),
  which \<open>DataManager.findStopsWithinRadius\<close>, whose body is not in the sources, returns.
  An element carries the three properties that \<open>findItinerary\<close> reads of it: the stop,
  its distance and, beside them, the identifier of the stop as \<open>stop_id\<close>.
\<close>

definition withinRadius ::
  "(real option \<Rightarrow> real option \<Rightarrow> real option \<Rightarrow> real option \<Rightarrow> real) \<Rightarrow> stop list \<Rightarrow> coords \<Rightarrow> real
     \<Rightarrow> stop_within list" where
  "withinRadius metres stops c radius =
     map (\<lambda>s. \<lparr>sw_stop_id = Some (stop_id s), sw_stop = s,
                sw_distance = metres (lat c) (lon c) (stop_lat s) (stop_lon s)\<rparr>)
       (filter (\<lambda>s. metres (lat c) (lon c) (stop_lat s) (stop_lon s) \<le> radius) stops)"

text \<open>
  Three master stops on the equator: \<open>B\<close> is 111 metres east of \<open>A\<close>, \<open>C\<close> a degree east.
  One trip of service \<open>A\<close> leaves stop \<open>A\<close> at 00:00:30 and reaches \<open>C\<close> at 00:20:00. The
  query leaves the coordinate of stop \<open>A\<close> at 00:00:00 for the coordinate of stop \<open>C\<close>.
\<close>

definition nightStops :: "stop list" where
  "nightStops = [demoStop ''A'' 0 0, demoStop ''B'' 0 0.001, demoStop ''C'' 0 1]"

definition nightTimes :: "stop_time list" where
  "nightTimes =
     [demoEvent ''N1'' 1 ''A'' (0, 0, 30) (0, 0, 30),
      demoEvent ''N1'' 2 ''C'' (0, 20, 0) (0, 20, 0)]"

definition nightFeed :: dataManager where
  "nightFeed = emptyDataManager
     \<lparr>trips := [demoTrip ''N1'' ''A''],
      stopTimesByTrip := [''N1'' \<mapsto> nightTimes],
      stopTimesByStop := [''A'' \<mapsto> [nightTimes ! 0], ''C'' \<mapsto> [nightTimes ! 1]],
      stopsById := [''A'' \<mapsto> demoStop ''A'' 0 0, ''B'' \<mapsto> demoStop ''B'' 0 0.001,
                    ''C'' \<mapsto> demoStop ''C'' 0 1],
      tripsByTripId := [''N1'' \<mapsto> demoTrip ''N1'' ''A''],
      calendar := [weekdays ''A''],
      masterStops := nightStops,
      calculateDistance := equatorDistance,
      findStopsWithinRadius := withinRadius equatorDistance nightStops\<rparr>"

definition nightDate :: jsdate where
  "nightDate = demoDate\<lparr>getHours := 0\<rparr>"

definition atA :: coords where "atA = \<lparr>lat = Some 0, lon = Some 0\<rparr>"
definition atC :: coords where "atC = \<lparr>lat = Some 0, lon = Some 1\<rparr>"

definition nightPathfinder :: localPathfinder where
  "nightPathfinder = newLocalPathfinder nightFeed"

text \<open>What the theorems about concrete runs show of a leg.\<close>

definition summary :: "leg \<Rightarrow> leg_kind \<times> string option \<times> string option \<times> int \<times> int" where
  "summary l = (kind l, fromStopId l, toStopId l, startTime l, endTime l)"

text \<open>The state of the search after the initial walk legs of the query.\<close>

definition nightInit :: search where
  "nightInit = fold (initStart atA 0)
      [\<lparr>sw_stop_id = Some ''A'', sw_stop = demoStop ''A'' 0 0, sw_distance = 0\<rparr>,
       \<lparr>sw_stop_id = Some ''B'', sw_stop = demoStop ''B'' 0 0.001, sw_distance = 111.195\<rparr>]
      \<lparr>pq = [], minArrivalTime = Map.empty, backLink = Map.empty\<rparr>"

text \<open>
  The same stops in the morning, with a trip whose second event names a stop \<open>X\<close> that
  \<open>stops.txt\<close> does not have.
\<close>

definition ghostTimes :: "stop_time list" where
  "ghostTimes =
     [demoEvent ''N1'' 1 ''A'' (8, 0, 30) (8, 0, 30),
      demoEvent ''N1'' 2 ''X'' (8, 10, 0) (8, 10, 0),
      demoEvent ''N1'' 3 ''C'' (8, 20, 0) (8, 20, 0)]"

definition ghostFeed :: dataManager where
  "ghostFeed = nightFeed
     \<lparr>stopTimesByTrip := [''N1'' \<mapsto> ghostTimes],
      stopTimesByStop := [''A'' \<mapsto> [ghostTimes ! 0], ''X'' \<mapsto> [ghostTimes ! 1],
                          ''C'' \<mapsto> [ghostTimes ! 2]]\<rparr>"



text \<open>
  Three master stops a degree apart at midnight, and three trips of service \<open>A\<close>: from
  \<open>A\<close> at 00:00:30 to \<open>X\<close>, from \<open>X\<close> at 00:15:00 back to \<open>A\<close>, and from \<open>A\<close> at 00:30:00 to
  \<open>D\<close>. The query leaves the coordinate of stop \<open>A\<close> at 00:00:00 for that of stop \<open>D\<close>.
\<close>

definition loopStops :: "stop list" where
  "loopStops = [demoStop ''A'' 0 0, demoStop ''X'' 0 1, demoStop ''D'' 0 2]"

definition loopEvents :: "stop_time list" where
  "loopEvents =
     [demoEvent ''L1'' 1 ''A'' (0, 0, 30) (0, 0, 30),
      demoEvent ''L1'' 2 ''X'' (0, 10, 0) (0, 10, 0),
      demoEvent ''L2'' 1 ''X'' (0, 15, 0) (0, 15, 0),
      demoEvent ''L2'' 2 ''A'' (0, 25, 0) (0, 25, 0),
      demoEvent ''L3'' 1 ''A'' (0, 30, 0) (0, 30, 0),
      demoEvent ''L3'' 2 ''D'' (0, 40, 0) (0, 40, 0)]"

definition loopFeed :: dataManager where
  "loopFeed = emptyDataManager
     \<lparr>trips := [demoTrip ''L1'' ''A'', demoTrip ''L2'' ''A'', demoTrip ''L3'' ''A''],
      stopTimesByTrip := [''L1'' \<mapsto> [loopEvents ! 0, loopEvents ! 1],
                          ''L2'' \<mapsto> [loopEvents ! 2, loopEvents ! 3],
                          ''L3'' \<mapsto> [loopEvents ! 4, loopEvents ! 5]],
      stopTimesByStop := [''A'' \<mapsto> [loopEvents ! 0, loopEvents ! 3, loopEvents ! 4],
                          ''X'' \<mapsto> [loopEvents ! 1, loopEvents ! 2],
                          ''D'' \<mapsto> [loopEvents ! 5]],
      stopsById := [''A'' \<mapsto> demoStop ''A'' 0 0, ''X'' \<mapsto> demoStop ''X'' 0 1,
                    ''D'' \<mapsto> demoStop ''D'' 0 2],
      tripsByTripId := [''L1'' \<mapsto> demoTrip ''L1'' ''A'', ''L2'' \<mapsto> demoTrip ''L2'' ''A'',
                        ''L3'' \<mapsto> demoTrip ''L3'' ''A''],
      calendar := [weekdays ''A''],
      masterStops := loopStops,
      calculateDistance := equatorDistance,
      findStopsWithinRadius := withinRadius equatorDistance loopStops\<rparr>"

definition atD :: coords where "atD = \<lparr>lat = Some 0, lon = Some 2\<rparr>"

section \<open>Feeds for the transfer index\<close>





section \<open>A route line\<close>




section \<open>Facts about the small feed\<close>

lemma demoDate_string: "dateString demoDate = ''20240115''"
  by (simp add: dateString_def demoDate_def padStart2_def String_of_nat.simps digit_char_def)

lemma demoDate_day: "getDay demoDate = 1"
  by (simp add: demoDate_def)

lemma demoFeed_rule: "rule_matches demoDate (weekdays s)"
  by (simp add: rule_matches_def demoDate_string demoDate_day dayColumn_def weekdays_def)

lemma demoFeed_calendar:
  "calendar demoFeed = [weekdays ''A'', weekdays ''B'']" "calendarDates demoFeed = []"
  by (simp_all add: demoFeed_def emptyDataManager_def)

lemma weekdays_id: "cal_service_id (weekdays s) = s"
  by (simp add: weekdays_def)

lemma demoFeed_service: "getServiceId demoFeed demoDate = Some ''A''"
  by (simp add: getServiceId_def demoFeed_calendar demoFeed_rule weekdays_id)

lemma demoFeed_stops:
  "getStop demoFeed ''S1'' = Some (demoStop ''S1'' 45.18 0.71)"
  "getStop demoFeed ''S2'' = Some (demoStop ''S2'' 45.19 0.72)"
  "getStop demoFeed ''S3'' = Some (demoStop ''S3'' 45.2 0.73)"
  by (simp_all add: getStop_def demoFeed_def emptyDataManager_def)

lemma demoTimes_sorted: "sorted (stop_seconds demoTimes)"
  by (simp add: stop_seconds_def demoTimes_def demoEvent_def timeToSeconds_def)

lemma demoFeed_trips:
  "trips demoFeed = [demoTrip ''T1'' ''A'', demoTrip ''T2'' ''A'', demoTrip ''T3'' ''B'']"
  "stopTimesByTrip demoFeed ''T1'' = Some demoTimes"
  "stopTimesByTrip demoFeed ''T2'' = Some [demoEvent ''T2'' 1 ''S1'' (8, 0, 0) (8, 10, 0)]"
  "isLoaded demoFeed"
  by (simp_all add: demoFeed_def emptyDataManager_def)

lemma demoFeed_live:
  "map at_tripId (DataManager_getActiveTrips demoFeed 29100 demoDate) = [''T1'']"
  "map at_stopTimes (DataManager_getActiveTrips demoFeed 29100 demoDate) = [demoTimes]"
  by (simp_all add: DataManager_getActiveTrips_def demoFeed_service demoFeed_trips demoTrip_def
        demoTimes_def demoEvent_def timeToSeconds_def Let_def)

lemma demoFeed_active:
  "map bus_tripId (TripScheduler_getActiveTrips demoFeed 29100 demoDate) = [''T1'']"
proof -
  obtain a where a: "DataManager_getActiveTrips demoFeed 29100 demoDate = [a]"
    "at_tripId a = ''T1''" "at_stopTimes a = demoTimes"
    using demoFeed_live by (cases "DataManager_getActiveTrips demoFeed 29100 demoDate") auto
  have "findCurrentState demoFeed demoTimes 29100
     = Some (Moving (demoStop ''S1'' 45.18 0.71) (demoStop ''S2'' 45.19 0.72) 28800 29100 1)"
    by (simp add: findCurrentState_def demoTimes_def demoEvent_def timeToSeconds_def Let_def
        demoFeed_stops calculateProgress_def waiting_at_def)
  with a show ?thesis
    by (simp add: TripScheduler_getActiveTrips_def demoFeed_trips)
qed

section \<open>Service calendar\<close>

lemma first_index_unique:
  assumes "i < length xs" "P (xs ! i)" "\<forall>j<i. \<not> P (xs ! j)"
  shows "(\<exists>k<length xs. P (xs ! k) \<and> (\<forall>j<k. \<not> P (xs ! j)) \<and> f (xs ! k) = s) \<longleftrightarrow> f (xs ! i) = s"
proof
  assume "\<exists>k<length xs. P (xs ! k) \<and> (\<forall>j<k. \<not> P (xs ! j)) \<and> f (xs ! k) = s"
  then obtain k where k: "k < length xs" "P (xs ! k)" "\<forall>j<k. \<not> P (xs ! j)" "f (xs ! k) = s"
    by blast
  have "k = i"
  proof (rule ccontr)
    assume "k \<noteq> i"
    then consider "k < i" | "i < k" by linarith
    then show False using k assms by cases blast+
  qed
  with k show "f (xs ! i) = s" by simp
next
  assume "f (xs ! i) = s"
  with assms show "\<exists>k<length xs. P (xs ! k) \<and> (\<forall>j<k. \<not> P (xs ! j)) \<and> f (xs ! k) = s"
    by blast
qed

text \<open>
  Claim C1, as the code has it. \<open>getServiceId\<close> returns at most one service identifier.
  When some exception row, of whatever service, carries the query date, the first such
  row decides: its service when its type is added (\<open>1\<close>), no service otherwise. When no
  exception row carries the date, the answer is the service of the first calendar rule
  whose window contains the date and whose day column is \<open>1\<close>, and no service when no
  rule matches. A service is active exactly when it is the identifier returned.
\<close>

theorem getServiceId_first_match:
  "getServiceId dm date = Some s \<longleftrightarrow>
     (\<exists>i<length (calendarDates dm).
         cd_date (calendarDates dm ! i) = dateString date
         \<and> (\<forall>j<i. cd_date (calendarDates dm ! j) \<noteq> dateString date)
         \<and> exception_type (calendarDates dm ! i) = ''1''
         \<and> cd_service_id (calendarDates dm ! i) = s)
     \<or> ((\<forall>e\<in>set (calendarDates dm). cd_date e \<noteq> dateString date)
         \<and> (\<exists>i<length (calendar dm).
               rule_matches date (calendar dm ! i)
               \<and> (\<forall>j<i. \<not> rule_matches date (calendar dm ! j))
               \<and> cal_service_id (calendar dm ! i) = s))"
  (is "?L \<longleftrightarrow> ?A \<or> (?N \<and> ?B)")
proof (cases "find (\<lambda>d. cd_date d = dateString date) (calendarDates dm)")
  case None
  then have no: ?N
    by (simp add: find_None_iff)
  then have notA: "\<not> ?A"
    using nth_mem by blast
  show ?thesis
  proof (cases "find (rule_matches date) (calendar dm)")
    case None
    then have "\<forall>r\<in>set (calendar dm). \<not> rule_matches date r"
      by (simp add: find_None_iff)
    then have notB: "\<not> ?B"
      using nth_mem by blast
    have "getServiceId dm date = None"
      using None \<open>find _ (calendarDates dm) = None\<close> by (simp add: getServiceId_def)
    then have "\<not> ?L" by simp
    with notA notB show ?thesis by blast
  next
    case (Some r)
    then obtain i where i: "i < length (calendar dm)" "rule_matches date (calendar dm ! i)"
      "r = calendar dm ! i" "\<forall>j<i. \<not> rule_matches date (calendar dm ! j)"
      unfolding find_Some_iff by blast
    have B: "?B \<longleftrightarrow> cal_service_id (calendar dm ! i) = s"
      using first_index_unique[of i "calendar dm" "rule_matches date" cal_service_id s] i by simp
    have "getServiceId dm date = Some (cal_service_id (calendar dm ! i))"
      using Some \<open>find _ (calendarDates dm) = None\<close> i(3) by (simp add: getServiceId_def)
    then have "?L \<longleftrightarrow> cal_service_id (calendar dm ! i) = s" by simp
    with notA no B show ?thesis by blast
  qed
next
  case (Some e)
  then obtain i where i: "i < length (calendarDates dm)" "cd_date (calendarDates dm ! i) = dateString date"
    "e = calendarDates dm ! i" "\<forall>j<i. \<not> cd_date (calendarDates dm ! j) = dateString date"
    unfolding find_Some_iff by blast
  have notN: "\<not> ?N"
    using i(1,2) nth_mem by blast
  have A: "?A \<longleftrightarrow> exception_type (calendarDates dm ! i) = ''1'' \<and> cd_service_id (calendarDates dm ! i) = s"
  proof
    assume ?A
    then obtain k where k: "k < length (calendarDates dm)" "cd_date (calendarDates dm ! k) = dateString date"
      "\<forall>j<k. cd_date (calendarDates dm ! j) \<noteq> dateString date"
      "exception_type (calendarDates dm ! k) = ''1''" "cd_service_id (calendarDates dm ! k) = s"
      by blast
    have "k = i"
    proof (rule ccontr)
      assume "k \<noteq> i"
      then consider "k < i" | "i < k" by linarith
      then show False using k i by cases blast+
    qed
    with k show "exception_type (calendarDates dm ! i) = ''1'' \<and> cd_service_id (calendarDates dm ! i) = s"
      by simp
  next
    assume "exception_type (calendarDates dm ! i) = ''1'' \<and> cd_service_id (calendarDates dm ! i) = s"
    with i show ?A by blast
  qed
  have "getServiceId dm date
      = (if exception_type (calendarDates dm ! i) = ''1'' then Some (cd_service_id (calendarDates dm ! i)) else None)"
    using Some i(3) by (simp add: getServiceId_def)
  then have "?L \<longleftrightarrow> exception_type (calendarDates dm ! i) = ''1'' \<and> cd_service_id (calendarDates dm ! i) = s"
    by simp
  with notN A show ?thesis by blast
qed

theorem getServiceId_first_match_witness:
  "getServiceId demoFeed demoDate = Some ''A'' \<and> rule_matches demoDate (calendar demoFeed ! 0)
   \<and> cal_service_id (calendar demoFeed ! 0) = ''A'' \<and> calendarDates demoFeed = []"
  using getServiceId_first_match[of demoFeed demoDate "''A''"] demoFeed_rule[of "''A''"]
  by (simp add: demoFeed_calendar weekdays_id demoFeed_service)

text \<open>
  Claim C1 as stated fails: the rules of services \<open>A\<close> and \<open>B\<close> both match the date, so
  the specification's rule makes both active, while the resolver returns \<open>A\<close> alone and
  no trip of \<open>B\<close> is ever selected.
\<close>

theorem service_calendar_counterexample:
  "service_active demoFeed demoDate ''A'' \<and> \<not> service_active demoFeed demoDate ''B''
   \<and> spec_service_active demoFeed demoDate ''B''"
  by (simp add: service_active_def demoFeed_service spec_service_active_def demoFeed_rule
        demoFeed_calendar weekdays_id)

section \<open>Trip resolver\<close>

lemma calculateProgress_range:
  "0 \<le> calculateProgress d a t \<and> calculateProgress d a t \<le> 1"
  by (simp add: calculateProgress_def Let_def)

lemma stop_seconds_simps [simp]:
  "stop_seconds [] = []"
  "stop_seconds (s # ss) = timeToSeconds (arrival_time s) # timeToSeconds (departure_time s) # stop_seconds ss"
  "stop_seconds (xs @ ys) = stop_seconds xs @ stop_seconds ys"
  by (simp_all add: stop_seconds_def)

lemma stop_seconds_mem:
  "s \<in> set ss \<Longrightarrow> timeToSeconds (arrival_time s) \<in> set (stop_seconds ss) \<and> timeToSeconds (departure_time s) \<in> set (stop_seconds ss)"
  by (induction ss) auto

lemma scanStops_some:
  "rest \<noteq> [] \<Longrightarrow> sorted (stop_seconds (prev # rest)) \<Longrightarrow> stops_known dm (prev # rest)
   \<Longrightarrow> timeToSeconds (departure_time prev) < t \<Longrightarrow> t \<le> timeToSeconds (arrival_time (last rest))
   \<Longrightarrow> scanStops dm prev rest t \<noteq> None"
proof (induction rest arbitrary: prev)
  case Nil
  then show ?case by simp
next
  case (Cons c rest)
  show ?case
  proof (cases "t \<le> timeToSeconds (departure_time c)")
    case True
    with Cons.prems show ?thesis
      by (auto simp: stops_known_def Let_def)
  next
    case False
    have le: "timeToSeconds (arrival_time c) \<le> timeToSeconds (departure_time c)"
      using Cons.prems(2) by simp
    from False le have ne: "rest \<noteq> []" using Cons.prems(5) by auto
    have "scanStops dm c rest t \<noteq> None"
      using Cons.IH[of c] ne Cons.prems False by (auto simp: stops_known_def)
    with False le show ?thesis by (auto simp: Let_def)
  qed
qed

text \<open>
  Claim C3, as the code has it. For a trip whose events are a non-empty sequence with
  times that never decrease and whose stops are all known to \<open>getStop\<close>, and for every
  second \<open>t\<close> from the first stop's departure to the last stop's arrival,
  \<open>findCurrentState\<close> returns a state, never \<open>null\<close>: there is no gap at a stop boundary.
\<close>

theorem findCurrentState_no_gap:
  assumes "stopTimes \<noteq> []" and "sorted (stop_seconds stopTimes)" and "stops_known dm stopTimes"
    and "timeToSeconds (departure_time (hd stopTimes)) \<le> t"
    and "t \<le> timeToSeconds (arrival_time (last stopTimes))"
  shows "\<exists>state. findCurrentState dm stopTimes t = Some state"
proof -
  from assms(1) obtain f rest where st: "stopTimes = f # rest" by (cases stopTimes) auto
  show ?thesis
  proof (cases "t \<le> timeToSeconds (departure_time f)")
    case True
    with assms st show ?thesis
      by (auto simp: findCurrentState_def stops_known_def Let_def)
  next
    case False
    have le: "timeToSeconds (arrival_time f) \<le> timeToSeconds (departure_time f)"
      using assms(2) st by simp
    from False le assms(5) st have ne: "rest \<noteq> []" by auto
    have "scanStops dm f rest t \<noteq> None"
      using scanStops_some[of rest f dm t] ne assms st False by auto
    with False st show ?thesis by (auto simp: findCurrentState_def Let_def)
  qed
qed

theorem findCurrentState_no_gap_witness:
  "demoTimes \<noteq> [] \<and> sorted (stop_seconds demoTimes) \<and> stops_known demoFeed demoTimes
   \<and> timeToSeconds (departure_time (hd demoTimes)) \<le> 29100
   \<and> 29100 \<le> timeToSeconds (arrival_time (last demoTimes))
   \<and> (\<exists>state. findCurrentState demoFeed demoTimes 29100 = Some state)"
proof -
  have a: "demoTimes \<noteq> []" by (simp add: demoTimes_def)
  have k: "stops_known demoFeed demoTimes"
    by (simp add: stops_known_def demoTimes_def demoEvent_def demoFeed_stops)
  have lo: "timeToSeconds (departure_time (hd demoTimes)) \<le> 29100"
    by (simp add: demoTimes_def demoEvent_def timeToSeconds_def)
  have hi: "29100 \<le> timeToSeconds (arrival_time (last demoTimes))"
    by (simp add: demoTimes_def demoEvent_def timeToSeconds_def)
  from findCurrentState_no_gap[OF a demoTimes_sorted k lo hi] a demoTimes_sorted k lo hi
  show ?thesis by simp
qed

text \<open>
  Claim C3 as stated fails for a trip with an event at a stop that \<open>stops.txt\<close> does not
  have: the times of the trip never decrease, 08:03:20 lies between the first departure
  and the last arrival, on the way from \<open>A\<close> to the unknown stop \<open>X\<close>, and the state
  there is \<open>null\<close>.
\<close>

theorem findCurrentState_unknown_stop_counterexample:
  "sorted (stop_seconds ghostTimes)
   \<and> timeToSeconds (departure_time (hd ghostTimes)) \<le> 29000
   \<and> 29000 \<le> timeToSeconds (arrival_time (last ghostTimes))
   \<and> getStop ghostFeed ''X'' = None
   \<and> findCurrentState ghostFeed ghostTimes 29000 = None"
  by (simp add: stop_seconds_def findCurrentState_def ghostTimes_def demoEvent_def
        timeToSeconds_def getStop_def ghostFeed_def nightFeed_def emptyDataManager_def Let_def)

lemma scanStops_skip:
  "(\<forall>s\<in>set pre. timeToSeconds (arrival_time s) < t \<and> timeToSeconds (departure_time s) < t)
   \<Longrightarrow> scanStops dm prev (pre @ rest) t = scanStops dm (last (prev # pre)) rest t"
  by (induction pre arbitrary: prev) (auto simp: Let_def)

lemma findCurrentState_skip:
  assumes "\<forall>s\<in>set (pre @ [p]). timeToSeconds (arrival_time s) < t \<and> timeToSeconds (departure_time s) < t"
  shows "findCurrentState dm (pre @ p # rest) t = scanStops dm p rest t"
proof (cases pre)
  case Nil
  with assms show ?thesis by (auto simp: findCurrentState_def Let_def)
next
  case (Cons f pre')
  have "scanStops dm f ((pre' @ [p]) @ rest) t = scanStops dm (last (f # pre' @ [p])) rest t"
    using assms Cons by (intro scanStops_skip) auto
  with assms Cons show ?thesis by (auto simp: findCurrentState_def Let_def)
qed

lemma scanStops_progress:
  "scanStops dm prev rest t = Some (Moving f g d a p) \<Longrightarrow> p = calculateProgress d a t"
  by (induction rest arbitrary: prev) (auto simp: Let_def waiting_at_def split: if_splits option.splits)

lemma stop_seconds_nth:
  "j < length sts \<Longrightarrow>
     stop_seconds sts ! (2 * j) = timeToSeconds (arrival_time (sts ! j))
     \<and> stop_seconds sts ! (2 * j + 1) = timeToSeconds (departure_time (sts ! j))"
proof (induction sts arbitrary: j)
  case Nil
  then show ?case by simp
next
  case (Cons s sts)
  then show ?case by (cases j) auto
qed

lemma length_stop_seconds [simp]: "length (stop_seconds sts) = 2 * length sts"
  by (induction sts) auto

lemma sorted_stop_seconds:
  assumes "sorted (stop_seconds sts)" and "k < length sts"
  shows "timeToSeconds (arrival_time (sts ! k)) \<le> timeToSeconds (departure_time (sts ! k))"
    and "j \<le> k \<Longrightarrow> timeToSeconds (departure_time (sts ! j)) \<le> timeToSeconds (departure_time (sts ! k))"
    and "j < k \<Longrightarrow> timeToSeconds (departure_time (sts ! j)) \<le> timeToSeconds (arrival_time (sts ! k))"
proof -
  have n: "\<And>a b. a \<le> b \<Longrightarrow> b < 2 * length sts \<Longrightarrow> stop_seconds sts ! a \<le> stop_seconds sts ! b"
    using assms(1) by (simp add: sorted_nth_mono)
  show "timeToSeconds (arrival_time (sts ! k)) \<le> timeToSeconds (departure_time (sts ! k))"
    using n[of "2 * k" "2 * k + 1"] stop_seconds_nth[OF assms(2)] assms(2) by simp
  show "timeToSeconds (departure_time (sts ! j)) \<le> timeToSeconds (departure_time (sts ! k))" if "j \<le> k"
  proof -
    have "j < length sts" using that assms(2) by simp
    then show ?thesis
      using n[of "2 * j + 1" "2 * k + 1"] stop_seconds_nth[OF assms(2)] stop_seconds_nth[of j sts] that assms(2)
      by simp
  qed
  show "timeToSeconds (departure_time (sts ! j)) \<le> timeToSeconds (arrival_time (sts ! k))" if "j < k"
  proof -
    have "j < length sts" using that assms(2) by simp
    then show ?thesis
      using n[of "2 * j + 1" "2 * k"] stop_seconds_nth[OF assms(2)] stop_seconds_nth[of j sts] that assms(2)
      by simp
  qed
qed

lemma findCurrentState_at:
  assumes "0 < k" and "k < length sts"
    and "\<forall>j<k. timeToSeconds (arrival_time (sts ! j)) < t \<and> timeToSeconds (departure_time (sts ! j)) < t"
  shows "findCurrentState dm sts t = scanStops dm (sts ! (k - 1)) (sts ! k # drop (Suc k) sts) t"
proof -
  have k1: "k - 1 < length sts" using assms by simp
  have split: "sts = take (k - 1) sts @ sts ! (k - 1) # drop k sts"
    using id_take_nth_drop[OF k1] assms(1) by simp
  have dr: "drop k sts = sts ! k # drop (Suc k) sts"
    using assms(2) by (simp add: Cons_nth_drop_Suc)
  have "\<forall>s\<in>set (take (k - 1) sts @ [sts ! (k - 1)]).
          timeToSeconds (arrival_time s) < t \<and> timeToSeconds (departure_time s) < t"
  proof
    fix s assume "s \<in> set (take (k - 1) sts @ [sts ! (k - 1)])"
    then consider "s \<in> set (take (k - 1) sts)" | "s = sts ! (k - 1)" by auto
    then obtain j where "j < k" "s = sts ! j"
    proof cases
      case 1
      then obtain j where "j < k - 1" "s = sts ! j"
        using k1 by (auto simp: in_set_conv_nth)
      then have "j < k" by simp
      with \<open>s = sts ! j\<close> show ?thesis by (rule that[rotated])
    next
      case 2
      then show ?thesis using that[of "k - 1"] assms(1) by simp
    qed
    then show "timeToSeconds (arrival_time s) < t \<and> timeToSeconds (departure_time s) < t"
      using assms(3) by simp
  qed
  then have "findCurrentState dm (take (k - 1) sts @ sts ! (k - 1) # drop k sts) t
              = scanStops dm (sts ! (k - 1)) (drop k sts) t"
    by (rule findCurrentState_skip)
  with split dr show ?thesis by simp
qed

lemma calculateProgress_arrival: "d < a \<Longrightarrow> calculateProgress d a a = 1"
  by (simp add: calculateProgress_def Let_def)

text \<open>
  Claim C2, as the code has it. Take a trip whose times never decrease, an intermediate
  stop \<open>i\<close> (it has a predecessor and a successor) with arrival before departure, and
  the three stops known. At the second of arrival the state is still the move from stop
  \<open>i - 1\<close> to stop \<open>i\<close>, with progress 1 (when the previous departure is earlier); the
  dwell at stop \<open>i\<close> is the state of every second after the arrival up to and including
  the departure; one second after the departure the state is the move from stop \<open>i\<close> to
  stop \<open>i + 1\<close> (when the next arrival is later than the departure).
\<close>

theorem findCurrentState_intermediate_stop:
  assumes sorted: "sorted (stop_seconds stopTimes)"
    and i: "0 < i" "i + 1 < length stopTimes"
    and dwell: "timeToSeconds (arrival_time (stopTimes ! i)) < timeToSeconds (departure_time (stopTimes ! i))"
    and prevInfo: "getStop dm (st_stop_id (stopTimes ! (i - 1))) = Some prevInfo"
    and info: "getStop dm (st_stop_id (stopTimes ! i)) = Some info"
    and nextInfo: "getStop dm (st_stop_id (stopTimes ! (i + 1))) = Some nextInfo"
  shows "(timeToSeconds (departure_time (stopTimes ! (i - 1))) < timeToSeconds (arrival_time (stopTimes ! i))
            \<longrightarrow> findCurrentState dm stopTimes (timeToSeconds (arrival_time (stopTimes ! i)))
                = Some (Moving prevInfo info (timeToSeconds (departure_time (stopTimes ! (i - 1))))
                          (timeToSeconds (arrival_time (stopTimes ! i))) 1))
       \<and> (\<forall>t. timeToSeconds (arrival_time (stopTimes ! i)) < t
                \<and> t \<le> timeToSeconds (departure_time (stopTimes ! i))
            \<longrightarrow> findCurrentState dm stopTimes t
                = Some (waiting_at info (timeToSeconds (departure_time (stopTimes ! i)))))
       \<and> (timeToSeconds (departure_time (stopTimes ! i)) < timeToSeconds (arrival_time (stopTimes ! (i + 1)))
            \<longrightarrow> findCurrentState dm stopTimes (timeToSeconds (departure_time (stopTimes ! i)) + 1)
                = Some (Moving info nextInfo (timeToSeconds (departure_time (stopTimes ! i)))
                          (timeToSeconds (arrival_time (stopTimes ! (i + 1))))
                          (calculateProgress (timeToSeconds (departure_time (stopTimes ! i)))
                             (timeToSeconds (arrival_time (stopTimes ! (i + 1))))
                             (timeToSeconds (departure_time (stopTimes ! i)) + 1))))"
proof -
  let ?arr = "\<lambda>k. timeToSeconds (arrival_time (stopTimes ! k))"
  let ?dep = "\<lambda>k. timeToSeconds (departure_time (stopTimes ! k))"
  have il: "i < length stopTimes" using i by simp
  have before: "?arr j \<le> ?dep j \<and> ?dep j \<le> ?arr i" if "j < i" for j
    using sorted_stop_seconds(1)[OF sorted, of j] sorted_stop_seconds(3)[OF sorted il, of j] that il
    by simp
  have upto: "?arr j \<le> ?dep j \<and> ?dep j \<le> ?dep i" if "j \<le> i" for j
    using sorted_stop_seconds(1)[OF sorted, of j] sorted_stop_seconds(2)[OF sorted il, of j] that il
    by simp
  have p1: "findCurrentState dm stopTimes (?arr i) = Some (Moving prevInfo info (?dep (i - 1)) (?arr i) 1)"
    if lt: "?dep (i - 1) < ?arr i"
  proof -
    have "\<forall>j<i. ?arr j < ?arr i \<and> ?dep j < ?arr i"
    proof (intro allI impI)
      fix j assume j: "j < i"
      then have "j \<le> i - 1" by simp
      then have "?dep j \<le> ?dep (i - 1)"
        using sorted_stop_seconds(2)[OF sorted, of "i - 1" j] il by simp
      with lt before[OF j] show "?arr j < ?arr i \<and> ?dep j < ?arr i" by simp
    qed
    from findCurrentState_at[OF i(1) il this] lt prevInfo info
    show ?thesis by (simp add: Let_def calculateProgress_arrival)
  qed
  have p2: "findCurrentState dm stopTimes t = Some (waiting_at info (?dep i))"
    if t: "?arr i < t" "t \<le> ?dep i" for t
  proof -
    have "\<forall>j<i. ?arr j < t \<and> ?dep j < t"
    proof (intro allI impI)
      fix j assume "j < i"
      from before[OF this] t show "?arr j < t \<and> ?dep j < t" by simp
    qed
    from findCurrentState_at[OF i(1) il this] t info
    show ?thesis by (simp add: Let_def)
  qed
  have p3: "findCurrentState dm stopTimes (?dep i + 1)
      = Some (Moving info nextInfo (?dep i) (?arr (i + 1)) (calculateProgress (?dep i) (?arr (i + 1)) (?dep i + 1)))"
    if lt: "?dep i < ?arr (i + 1)"
  proof -
    have "\<forall>j<i + 1. ?arr j < ?dep i + 1 \<and> ?dep j < ?dep i + 1"
    proof (intro allI impI)
      fix j assume "j < i + 1"
      then have "j \<le> i" by simp
      from upto[OF this] show "?arr j < ?dep i + 1 \<and> ?dep j < ?dep i + 1" by simp
    qed
    from findCurrentState_at[OF _ i(2) this] lt info nextInfo
    show ?thesis by (simp add: Let_def)
  qed
  from p1 p2 p3 show ?thesis by blast
qed

theorem findCurrentState_intermediate_stop_witness:
  "findCurrentState demoFeed demoTimes 29100
     = Some (Moving (demoStop ''S1'' 45.18 0.71) (demoStop ''S2'' 45.19 0.72) 28800 29100 1)
   \<and> findCurrentState demoFeed demoTimes 29101 = Some (waiting_at (demoStop ''S2'' 45.19 0.72) 29160)
   \<and> findCurrentState demoFeed demoTimes 29161
     = Some (Moving (demoStop ''S2'' 45.19 0.72) (demoStop ''S3'' 45.2 0.73) 29160 29520 (1 / 360))"
proof -
  have s: "sorted (stop_seconds demoTimes)" by (rule demoTimes_sorted)
  have d: "timeToSeconds (arrival_time (demoTimes ! 1)) < timeToSeconds (departure_time (demoTimes ! 1))"
    by (simp add: demoTimes_def demoEvent_def timeToSeconds_def)
  have k: "getStop demoFeed (st_stop_id (demoTimes ! (1 - 1))) = Some (demoStop ''S1'' 45.18 0.71)"
    "getStop demoFeed (st_stop_id (demoTimes ! 1)) = Some (demoStop ''S2'' 45.19 0.72)"
    "getStop demoFeed (st_stop_id (demoTimes ! (1 + 1))) = Some (demoStop ''S3'' 45.2 0.73)"
    by (simp_all add: demoTimes_def demoEvent_def demoFeed_stops)
  have l: "0 < (1::nat)" "1 + 1 < length demoTimes" by (simp_all add: demoTimes_def)
  from findCurrentState_intermediate_stop[OF s l d k]
  show ?thesis
    by (simp add: demoTimes_def demoEvent_def timeToSeconds_def calculateProgress_def)
qed

text \<open>
  Claim C2 as stated fails at the second of arrival: with arrival 08:05:00 and departure
  08:06:00 at \<open>S2\<close>, the state at 08:05:00 is the move from \<open>S1\<close> to \<open>S2\<close> at progress 1,
  not the dwell at \<open>S2\<close>. It also fails one second after the departure when the next
  stop is reached at the very second of the departure: in the second trip the state at
  08:06:01 is the dwell at \<open>S3\<close>, not the move from \<open>S2\<close> to \<open>S3\<close>.
\<close>

theorem findCurrentState_arrival_counterexample:
  "findCurrentState demoFeed demoTimes (timeToSeconds (8, 5, 0))
     = Some (Moving (demoStop ''S1'' 45.18 0.71) (demoStop ''S2'' 45.19 0.72) 28800 29100 1)
   \<and> findCurrentState demoFeed demoTimes (timeToSeconds (8, 5, 0))
     \<noteq> Some (waiting_at (demoStop ''S2'' 45.19 0.72) (timeToSeconds (8, 6, 0)))
   \<and> sorted (stop_seconds tightTimes)
   \<and> findCurrentState demoFeed tightTimes (timeToSeconds (8, 6, 0) + 1)
     = Some (waiting_at (demoStop ''S3'' 45.2 0.73) (timeToSeconds (8, 7, 0)))"
  by (simp add: findCurrentState_def demoTimes_def tightTimes_def demoEvent_def timeToSeconds_def
        Let_def demoFeed_stops calculateProgress_def waiting_at_def stop_seconds_def)

text \<open>
  Claim C10. The progress of every moving state that \<open>findCurrentState\<close> returns lies
  in the closed interval from 0 to 1; \<open>calculateProgress\<close> itself always does, and it
  returns 0 when the segment's arrival is not after its departure, where the quotient
  would have a zero or negative divisor.
\<close>

theorem calculateProgress_unit_interval:
  "(findCurrentState dm stopTimes t = Some (Moving f g d a p) \<longrightarrow> 0 \<le> p \<and> p \<le> 1)
   \<and> 0 \<le> calculateProgress d a t \<and> calculateProgress d a t \<le> 1
   \<and> (a \<le> d \<longrightarrow> calculateProgress d a t = 0)"
proof -
  have "p = calculateProgress d a t" if "findCurrentState dm stopTimes t = Some (Moving f g d a p)"
    using that scanStops_progress
    by (auto simp: findCurrentState_def Let_def waiting_at_def split: list.splits if_splits option.splits)
  then show ?thesis
    using calculateProgress_range[of d a t] by (auto simp: calculateProgress_def)
qed

theorem calculateProgress_unit_interval_witness:
  "findCurrentState demoFeed demoTimes 29161
     = Some (Moving (demoStop ''S2'' 45.19 0.72) (demoStop ''S3'' 45.2 0.73) 29160 29520 (1 / 360))
   \<and> (0::real) \<le> 1 / 360 \<and> (1::real) / 360 \<le> 1 \<and> calculateProgress 29160 29160 29160 = 0"
proof -
  have e: "findCurrentState demoFeed demoTimes 29161
     = Some (Moving (demoStop ''S2'' 45.19 0.72) (demoStop ''S3'' 45.2 0.73) 29160 29520 (1 / 360))"
    by (simp add: findCurrentState_def demoTimes_def demoEvent_def timeToSeconds_def Let_def
        demoFeed_stops calculateProgress_def waiting_at_def)
  from calculateProgress_unit_interval[of demoFeed demoTimes 29161 "demoStop ''S2'' 45.19 0.72"
      "demoStop ''S3'' 45.2 0.73" 29160 29520 "1 / 360"] e
    calculateProgress_unit_interval[of demoFeed demoTimes 29160 "demoStop ''S2'' 45.19 0.72"
      "demoStop ''S3'' 45.2 0.73" 29160 29160 "1 / 360"]
  show ?thesis by simp
qed

lemma DataManager_getActiveTrips_length:
  "a \<in> set (DataManager_getActiveTrips dm t date) \<Longrightarrow>
     stopTimesByTrip dm (at_tripId a) = Some (at_stopTimes a) \<and> 2 \<le> length (at_stopTimes a)"
  by (auto simp: DataManager_getActiveTrips_def Let_def split: option.splits if_splits)

text \<open>
  Claim C9. Every bus that \<open>TripScheduler.getActiveTrips\<close> returns belongs to a trip
  whose sequence of events has at least two elements; a trip with exactly one event is
  never among them, whatever the instant and the date.
\<close>

theorem active_trips_have_two_events:
  "(\<forall>b\<in>set (TripScheduler_getActiveTrips dm t date).
      \<exists>stopTimes. stopTimesByTrip dm (bus_tripId b) = Some stopTimes \<and> 2 \<le> length stopTimes)
   \<and> (stopTimesByTrip dm tripId = Some [event]
        \<longrightarrow> tripId \<notin> bus_tripId ` set (TripScheduler_getActiveTrips dm t date))"
proof -
  have a: "\<exists>stopTimes. stopTimesByTrip dm (bus_tripId b) = Some stopTimes \<and> 2 \<le> length stopTimes"
    if "b \<in> set (TripScheduler_getActiveTrips dm t date)" for b
    using that DataManager_getActiveTrips_length[of _ dm t date]
    by (auto simp: TripScheduler_getActiveTrips_def split: if_splits option.splits)
  then show ?thesis by fastforce
qed

theorem active_trips_have_two_events_witness:
  "map bus_tripId (TripScheduler_getActiveTrips demoFeed 29100 demoDate) = [''T1'']
   \<and> stopTimesByTrip demoFeed ''T1'' = Some demoTimes \<and> 2 \<le> length demoTimes
   \<and> stopTimesByTrip demoFeed ''T2'' = Some [demoEvent ''T2'' 1 ''S1'' (8, 0, 0) (8, 10, 0)]
   \<and> service_active demoFeed demoDate ''A''
   \<and> timeToSeconds (8, 0, 0) \<le> 29100 \<and> 29100 \<le> timeToSeconds (8, 10, 0)"
  using active_trips_have_two_events[of demoFeed 29100 demoDate "''T2''"
      "demoEvent ''T2'' 1 ''S1'' (8, 0, 0) (8, 10, 0)"] demoFeed_active demoFeed_service
  by (simp add: service_active_def timeToSeconds_def demoFeed_trips demoTimes_def)

section \<open>Transfer index\<close>







section \<open>Numbers\<close>

text \<open>
  \<open>exponent\<close> brackets a positive real between two powers of two, and \<open>toDouble\<close> moves
  a real by at most half a step of its binade.
\<close>

lemma bitLength_bounds: "0 < n \<Longrightarrow> 2 ^ (bitLength n - 1) \<le> n \<and> n < 2 ^ bitLength n"
proof (induction n rule: bitLength.induct)
  case (1 n)
  show ?case
  proof (cases "n div 2 = 0")
    case True
    with 1 have "n = 1" by (cases n) auto
    then show ?thesis by (simp add: bitLength.simps)
  next
    case False
    then have pos: "0 < n div 2" by simp
    from 1 have n0: "n \<noteq> 0" by simp
    from "1.IH"[OF n0 pos] have lo: "2 ^ (bitLength (n div 2) - 1) \<le> n div 2"
      and hi: "n div 2 < 2 ^ bitLength (n div 2)" by auto
    have b: "bitLength n = Suc (bitLength (n div 2))" using n0 by (simp add: bitLength.simps[of n])
    have bp: "0 < bitLength (n div 2)" using pos by (simp add: bitLength.simps[of "n div 2"])
    then obtain m where m: "bitLength (n div 2) = Suc m" by (cases "bitLength (n div 2)") auto
    from lo m have "2 * 2 ^ m \<le> 2 * (n div 2)" by simp
    also have "\<dots> \<le> n" by simp
    finally have l: "2 ^ (bitLength n - 1) \<le> n" using b m by simp
    from hi have "n div 2 + 1 \<le> 2 ^ bitLength (n div 2)" by simp
    then have "2 * (n div 2) + 2 \<le> 2 * 2 ^ bitLength (n div 2)" by simp
    moreover have "n < 2 * (n div 2) + 2" by presburger
    ultimately have "n < 2 ^ bitLength n" using b by simp
    with l show ?thesis by simp
  qed
qed

lemma pow2_int: "0 \<le> k \<Longrightarrow> pow2 k = 2 ^ nat k"
  by (simp add: pow2_def)

lemma exponent_bounds:
  assumes "0 < x"
  shows "pow2 (exponent x) \<le> x \<and> x < pow2 (exponent x + 1)"
proof (cases "1 \<le> x")
  case True
  define n where "n = nat \<lfloor>x\<rfloor>"
  from True have n1: "0 < n" unfolding n_def by simp
  have nx: "real n \<le> x" unfolding n_def using True by simp
  have xn: "x < real n + 1" unfolding n_def using True by simp
  from bitLength_bounds[OF n1] have lo: "2 ^ (bitLength n - 1) \<le> n" and hi: "n < 2 ^ bitLength n" by auto
  have bp: "0 < bitLength n" using n1 by (simp add: bitLength.simps[of n])
  have e: "exponent x = int (bitLength n) - 1" using True by (simp add: exponent_def n_def)
  have e0: "0 \<le> exponent x" using bp e by simp
  have ne: "nat (exponent x) = bitLength n - 1" using e bp by simp
  have ne1: "nat (exponent x + 1) = bitLength n" using e bp by simp
  have "pow2 (exponent x) = 2 ^ (bitLength n - 1)" using e0 ne by (simp add: pow2_def)
  also have "\<dots> \<le> real n" using lo by (metis of_nat_le_iff of_nat_numeral of_nat_power)
  finally have l: "pow2 (exponent x) \<le> x" using nx by simp
  from hi have "n + 1 \<le> 2 ^ bitLength n" by simp
  then have "real (n + 1) \<le> 2 ^ bitLength n" by (metis of_nat_le_iff of_nat_numeral of_nat_power)
  with xn have "x < (2::real) ^ bitLength n" by simp
  moreover have "pow2 (exponent x + 1) = 2 ^ bitLength n" using e0 ne1 by (simp add: pow2_def)
  ultimately show ?thesis using l by simp
next
  case False
  with assms have x1: "x < 1" by simp
  define m where "m = nat (\<lceil>1 / x\<rceil> - 1)"
  define k where "k = bitLength m"
  have inv: "1 < 1 / x" using assms x1 by simp
  then have c2: "2 \<le> \<lceil>1 / x\<rceil>" by linarith
  then have cp: "0 < \<lceil>1 / x\<rceil> - 1" by linarith
  then have m1: "0 < m" unfolding m_def by (simp only: zero_less_nat_eq)
  have mi: "int m = \<lceil>1 / x\<rceil> - 1" unfolding m_def using cp by (simp only: nat_0_le less_imp_le)
  have below: "real m < 1 / x"
  proof -
    have "real_of_int (\<lceil>1 / x\<rceil> - 1) < 1 / x" by linarith
    then show ?thesis using mi by (metis of_int_of_nat_eq)
  qed
  have above: "1 / x \<le> real m + 1"
  proof -
    have "1 / x \<le> real_of_int \<lceil>1 / x\<rceil>" by simp
    also have "\<dots> = real_of_int (int m + 1)" using mi by simp
    finally show ?thesis by simp
  qed
  from bitLength_bounds[OF m1] have lo: "2 ^ (k - 1) \<le> m" and hi: "m < 2 ^ k" unfolding k_def by auto
  have kp: "0 < k" unfolding k_def using m1 by (simp add: bitLength.simps[of m])
  have e: "exponent x = - int k" using False by (simp add: exponent_def m_def k_def)
  have p0: "pow2 (exponent x) = 1 / 2 ^ k" using e kp by (simp add: pow2_def)
  have p1: "pow2 (exponent x + 1) = 1 / 2 ^ (k - 1)"
  proof (cases "k = 1")
    case True
    then show ?thesis using e by (simp add: pow2_def)
  next
    case False
    with kp have "1 < k" by simp
    then have "exponent x + 1 < 0" "nat (- (exponent x + 1)) = k - 1" using e by simp_all
    then show ?thesis by (simp add: pow2_def)
  qed
  from hi have "m + 1 \<le> 2 ^ k" by simp
  then have "real (m + 1) \<le> 2 ^ k" by (metis of_nat_le_iff of_nat_numeral of_nat_power)
  with above have "1 / x \<le> (2::real) ^ k" by simp
  then have l: "1 / 2 ^ k \<le> x" using assms by (simp add: field_simps)
  have "(2::real) ^ (k - 1) \<le> real m" using lo by (metis of_nat_le_iff of_nat_numeral of_nat_power)
  with below have "(2::real) ^ (k - 1) < 1 / x" by linarith
  then have u: "x < 1 / 2 ^ (k - 1)" using assms by (simp add: field_simps)
  from l u p0 p1 show ?thesis by simp
qed

lemma pow2_pos: "0 < pow2 k"
  by (simp add: pow2_def)

lemma roundHalfEven_nearest: "\<bar>of_int (roundHalfEven y) - y\<bar> \<le> 1 / 2"
proof -
  have "of_int \<lfloor>y\<rfloor> \<le> y" "y < of_int \<lfloor>y\<rfloor> + 1" by linarith+
  then show ?thesis by (auto simp: roundHalfEven_def Let_def)
qed

lemma toDouble_nearest:
  "\<bar>toDouble x - x\<bar> \<le> pow2 (max (exponent \<bar>x\<bar>) (- 1022) - 52) / 2"
proof (cases "x = 0")
  case True
  then show ?thesis using pow2_pos[of "max (exponent \<bar>x\<bar>) (- 1022) - 52"] by (simp add: toDouble_def)
next
  case False
  define u where "u = pow2 (max (exponent \<bar>x\<bar>) (- 1022) - 52)"
  have up: "0 < u" unfolding u_def by (rule pow2_pos)
  have "toDouble x - x = (of_int (roundHalfEven (x / u)) - x / u) * u"
    using False up by (simp add: toDouble_def u_def[symmetric] Let_def field_simps)
  then have "\<bar>toDouble x - x\<bar> = \<bar>of_int (roundHalfEven (x / u)) - x / u\<bar> * u"
    using up by (simp add: abs_mult)
  also have "\<dots> \<le> 1 / 2 * u"
    using roundHalfEven_nearest[of "x / u"] up by (intro mult_right_mono) simp_all
  finally show ?thesis by (simp add: u_def)
qed

text \<open>
  The walking speed is the double \<open>1.399999999999999911182158029987\<close>. The quotient of 350
  by it is rounded up to the double next after 250, of which \<open>Math.ceil\<close> makes 251.
\<close>

lemmas double_eval = toDouble_def exponent_def roundHalfEven_def pow2_def bitLength.simps

lemma WALK_SPEED_MPS_value: "WALK_SPEED_MPS = 3152519739159347 / 2251799813685248"
  by (simp add: WALK_SPEED_MPS_def double_eval Let_def)

lemma quotient_350: "toDouble (350 / WALK_SPEED_MPS) = 250 + 1 / 2 ^ 45"
  by (simp add: WALK_SPEED_MPS_value double_eval Let_def)

lemma walk_seconds:
  "\<lceil>toDouble (0 / WALK_SPEED_MPS)\<rceil> = 0"
  "\<lceil>toDouble (111.195 / WALK_SPEED_MPS)\<rceil> = 80"
  "\<lceil>toDouble (333.585 / WALK_SPEED_MPS)\<rceil> = 239"
  "\<lceil>toDouble (444.78 / WALK_SPEED_MPS)\<rceil> = 318"
  "\<lceil>toDouble (350 / WALK_SPEED_MPS)\<rceil> = 251"
  by (simp_all add: WALK_SPEED_MPS_value double_eval Let_def)

section \<open>Facts about the feed at midnight\<close>

lemma nightFeed_simps:
  "masterStops nightFeed = nightStops"
  "calculateDistance nightFeed = equatorDistance"
  "findStopsWithinRadius nightFeed = withinRadius equatorDistance nightStops"
  "calendar nightFeed = [weekdays ''A'']"
  "calendarDates nightFeed = []"
  "tripsByTripId nightFeed = [''N1'' \<mapsto> demoTrip ''N1'' ''A'']"
  "stopTimesByTrip nightFeed = [''N1'' \<mapsto> nightTimes]"
  "stopTimesByStop nightFeed = [''A'' \<mapsto> [nightTimes ! 0], ''C'' \<mapsto> [nightTimes ! 1]]"
  "stopsById nightFeed = [''A'' \<mapsto> demoStop ''A'' 0 0, ''B'' \<mapsto> demoStop ''B'' 0 0.001,
                    ''C'' \<mapsto> demoStop ''C'' 0 1]"
  "routesById nightFeed = Map.empty"
  by (simp_all add: nightFeed_def emptyDataManager_def)

lemma night_transfersA:
  "transfersFrom nightFeed nightStops 0 = [\<lparr>tr_toStopId = ''B'', walkTime = 80, tr_distance = 111.195\<rparr>]"
  by (simp add: transfersFrom_def nightFeed_simps nightStops_def demoStop_def equatorDistance_def
      MAX_WALK_METERS_def WALK_SPEED_MPS_value double_eval upt_rec Let_def)

lemma night_transfersB:
  "transfersFrom nightFeed nightStops 1 = [\<lparr>tr_toStopId = ''A'', walkTime = 80, tr_distance = 111.195\<rparr>]"
  by (simp add: transfersFrom_def nightFeed_simps nightStops_def demoStop_def equatorDistance_def
      MAX_WALK_METERS_def WALK_SPEED_MPS_value double_eval upt_rec Let_def)

lemma night_transfersC:
  "transfersFrom nightFeed nightStops 2 = []"
  by (simp add: transfersFrom_def nightFeed_simps nightStops_def demoStop_def equatorDistance_def
      MAX_WALK_METERS_def WALK_SPEED_MPS_value double_eval upt_rec Let_def)

lemma night_transferMap:
  "prebuildTransferMap nightFeed =
     [''A'' \<mapsto> [\<lparr>tr_toStopId = ''B'', walkTime = 80, tr_distance = 111.195\<rparr>],
      ''B'' \<mapsto> [\<lparr>tr_toStopId = ''A'', walkTime = 80, tr_distance = 111.195\<rparr>],
      ''C'' \<mapsto> []]"
proof -
  have "prebuildTransferMap nightFeed =
     [stop_id (nightStops ! 0) \<mapsto> transfersFrom nightFeed nightStops 0,
      stop_id (nightStops ! 1) \<mapsto> transfersFrom nightFeed nightStops 1,
      stop_id (nightStops ! 2) \<mapsto> transfersFrom nightFeed nightStops 2]"
    unfolding prebuildTransferMap_def nightFeed_simps Let_def
    by (simp add: nightStops_def upt_rec numeral_2_eq_2)
  then show ?thesis
    unfolding night_transfersA night_transfersB night_transfersC
    by (simp add: nightStops_def demoStop_def)
qed

lemma nightPathfinder_simps:
  "pf_dataManager nightPathfinder = nightFeed"
  "pf_transferMap nightPathfinder =
     [''A'' \<mapsto> [\<lparr>tr_toStopId = ''B'', walkTime = 80, tr_distance = 111.195\<rparr>],
      ''B'' \<mapsto> [\<lparr>tr_toStopId = ''A'', walkTime = 80, tr_distance = 111.195\<rparr>],
      ''C'' \<mapsto> []]"
  by (simp_all add: nightPathfinder_def newLocalPathfinder_def night_transferMap)

lemma nightDate_string: "dateString nightDate = ''20240115''"
  by (simp add: dateString_def nightDate_def demoDate_def padStart2_def String_of_nat.simps digit_char_def)

lemma nightDate_simps:
  "getDay nightDate = 1" "getHours nightDate = 0" "getMinutes nightDate = 0" "getSeconds nightDate = 0"
  by (simp_all add: nightDate_def demoDate_def)

lemma night_service: "getServiceId nightFeed nightDate = Some ''A''"
  by (simp add: getServiceId_def nightFeed_simps rule_matches_def nightDate_string dayColumn_def
      weekdays_def nightDate_simps)

lemma night_start:
  "withinRadius equatorDistance nightStops atA MAX_WALK_METERS
     = [\<lparr>sw_stop_id = Some ''A'', sw_stop = demoStop ''A'' 0 0, sw_distance = 0\<rparr>,
        \<lparr>sw_stop_id = Some ''B'', sw_stop = demoStop ''B'' 0 0.001, sw_distance = 111.195\<rparr>]"
  "withinRadius equatorDistance nightStops atC MAX_WALK_METERS
     = [\<lparr>sw_stop_id = Some ''C'', sw_stop = demoStop ''C'' 0 1, sw_distance = 0\<rparr>]"
  "lat atC = Some 0" "lon atC = Some 1"
  by (simp_all add: withinRadius_def nightStops_def demoStop_def equatorDistance_def
      atA_def atC_def MAX_WALK_METERS_def)

lemma night_events:
  "nightTimes ! 0 = demoEvent ''N1'' 1 ''A'' (0, 0, 30) (0, 0, 30)"
  "nightTimes ! 1 = demoEvent ''N1'' 2 ''C'' (0, 20, 0) (0, 20, 0)"
  by (simp_all add: nightTimes_def)

lemma night_getters:
  "getStop nightFeed ''A'' = Some (demoStop ''A'' 0 0)"
  "getStop nightFeed ''B'' = Some (demoStop ''B'' 0 0.001)"
  "getStop nightFeed ''C'' = Some (demoStop ''C'' 0 1)"
  "getStopTimes nightFeed ''N1'' = nightTimes"
  "getRoute nightFeed ''R1'' = None"
  by (simp_all add: getStop_def getStopTimes_def getRoute_def nightFeed_simps)

lemmas night_eval =
  nightPathfinder_simps nightFeed_simps night_events night_getters nightTimes_def demoEvent_def
  demoTrip_def demoStop_def timeToSeconds_def relaxBus_def relaxWalk_def labelOrInfinity_def
  loopBody_def Let_def summary_def





text \<open>The main loop with its fuel written as a numeral.\<close>

lemma dijkstra_numeral:
  "dijkstra (numeral k) pf serviceId endStopIds s =
     (case pq s of
        [] \<Rightarrow> Some (Inr (None, s))
      | element # collection \<Rightarrow>
          (case loopBody pf serviceId endStopIds element (s\<lparr>pq := collection\<rparr>) of
             Throw e \<Rightarrow> Some (Inl e)
           | Break finalStopId s1 \<Rightarrow> Some (Inr (finalStopId, s1))
           | Continue s1 \<Rightarrow> dijkstra (pred_numeral k) pf serviceId endStopIds s1))"
  by (simp add: numeral_eq_Suc)

section \<open>The legs in the queue\<close>

text \<open>
  Every leg that \<open>findItinerary\<close> enqueues names the stop it leads to, so at every
  iteration of the main loop \<open>currentStopId\<close> is a stop identifier: the case of
  \<open>loopBody\<close> for a leg without \<open>toStopId\<close> is not met in a run of \<open>findItinerary\<close>.
\<close>

lemma list_all_enqueue: "list_all P (enqueue element collection) = (P element \<and> list_all P collection)"
  by (induction collection) auto

lemma initStart_queue: "queueNamesStops s \<Longrightarrow> queueNamesStops (initStart c t startStop s)"
  by (simp add: queueNamesStops_def initStart_def Let_def list_all_enqueue)

lemma init_queue:
  "queueNamesStops s \<Longrightarrow> queueNamesStops (fold (initStart c t) startStops s)"
  by (induction startStops arbitrary: s) (simp_all add: initStart_queue)

lemma relaxBus_queue:
  "relaxBus dm tr st depTime cur nxt s = Inr s' \<Longrightarrow> queueNamesStops s \<Longrightarrow> queueNamesStops s'"
  by (auto simp: relaxBus_def queueNamesStops_def Let_def list_all_enqueue
      split: if_splits option.splits)

lemma relaxTripStops_queue:
  "relaxTripStops dm tr st depTime cur tripStops s = Inr s' \<Longrightarrow> queueNamesStops s
   \<Longrightarrow> queueNamesStops s'"
  by (induction tripStops arbitrary: s) (auto split: if_splits sum.splits dest: relaxBus_queue)

lemma expandBus_queue:
  "expandBus dm serviceId cur t departures s = Inr s' \<Longrightarrow> queueNamesStops s
   \<Longrightarrow> queueNamesStops s'"
  by (induction departures arbitrary: s)
     (auto simp: Let_def split: if_splits sum.splits option.splits dest: relaxTripStops_queue)

lemma relaxWalk_queue:
  "relaxWalk dm cur t tf s = Inr s' \<Longrightarrow> queueNamesStops s \<Longrightarrow> queueNamesStops s'"
  by (auto simp: relaxWalk_def queueNamesStops_def Let_def list_all_enqueue
      split: if_splits option.splits)

lemma expandWalk_queue:
  "expandWalk dm cur t transfers s = Inr s' \<Longrightarrow> queueNamesStops s \<Longrightarrow> queueNamesStops s'"
  by (induction transfers arbitrary: s) (auto split: sum.splits dest: relaxWalk_queue)

lemma loopBody_queue:
  "loopBody pf serviceId endStopIds element s = Continue s' \<Longrightarrow> queueNamesStops s
   \<Longrightarrow> queueNamesStops s'"
  by (auto simp: loopBody_def split: prod.splits option.splits if_splits sum.splits
      dest: expandBus_queue expandWalk_queue)

lemma afterIterations_queue:
  "afterIterations k pf serviceId endStopIds s = Some s' \<Longrightarrow> queueNamesStops s
   \<Longrightarrow> queueNamesStops s'"
proof (induction k arbitrary: s)
  case 0
  then show ?case by simp
next
  case (Suc k)
  from Suc.prems(1) obtain element collection s1 where
    q: "pq s = element # collection"
    and b: "loopBody pf serviceId endStopIds element (s\<lparr>pq := collection\<rparr>) = Continue s1"
    and a: "afterIterations k pf serviceId endStopIds s1 = Some s'"
    by (auto split: list.splits step.splits)
  from Suc.prems(2) q have "queueNamesStops (s\<lparr>pq := collection\<rparr>)"
    by (simp add: queueNamesStops_def)
  from loopBody_queue[OF b this] have "queueNamesStops s1" .
  from Suc.IH[OF a this] show ?case .
qed

lemma dequeued_leg_names_stop:
  assumes "afterIterations k pf serviceId endStopIds
             (fold (initStart c t) startStops
                \<lparr>pq = [], minArrivalTime = Map.empty, backLink = Map.empty\<rparr>) = Some s"
    and "pq s = (currentLeg, currentArrivalTime) # collection"
  shows "\<exists>currentStopId. toStopId currentLeg = Some currentStopId"
proof -
  have "queueNamesStops \<lparr>pq = [], minArrivalTime = Map.empty, backLink = Map.empty\<rparr>"
    by (simp add: queueNamesStops_def)
  from afterIterations_queue[OF assms(1) init_queue[OF this]] assms(2) show ?thesis
    by (simp add: queueNamesStops_def)
qed
section \<open>Transfer index: the claim\<close>










section \<open>Journey planner\<close>

text \<open>
  The test of both expansions, spelled out: a candidate is accepted when the stop has no
  label, when it is strictly smaller than the label, and also whenever the label is 0.
\<close>

lemma less_bound_label:
  "less_bound candidate (labelOrInfinity labels stopId)
     \<longleftrightarrow> (case labels stopId of None \<Rightarrow> True | Some v \<Rightarrow> v = 0 \<or> candidate < v)"
  by (simp add: labelOrInfinity_def split: option.splits)

text \<open>
  A candidate that passes the test sets the label and the back-link of its stop together
  (the back-link's leg ends at the new label, its predecessor is the stop expanded); a
  candidate that fails it leaves the state as it was.
\<close>

lemma relaxWalk_effect:
  assumes "relaxWalk dm cur t tf s = Inr s'"
  shows "if less_bound (t + walkTime tf) (labelOrInfinity (minArrivalTime s) (tr_toStopId tf))
         then minArrivalTime s' = (minArrivalTime s)(tr_toStopId tf \<mapsto> t + walkTime tf)
              \<and> map_option prevStopId (backLink s' (tr_toStopId tf)) = Some cur
              \<and> map_option (\<lambda>l. endTime (link_leg l)) (backLink s' (tr_toStopId tf))
                  = Some (t + walkTime tf)
         else s' = s"
  using assms by (auto simp: relaxWalk_def Let_def split: option.splits if_splits)

lemma relaxBus_effect:
  assumes "relaxBus dm tr st depTime cur nxt s = Inr s'"
  shows "if less_bound (timeToSeconds (arrival_time nxt))
              (labelOrInfinity (minArrivalTime s) (st_stop_id nxt))
         then minArrivalTime s' = (minArrivalTime s)(st_stop_id nxt \<mapsto> timeToSeconds (arrival_time nxt))
              \<and> map_option prevStopId (backLink s' (st_stop_id nxt)) = Some cur
              \<and> map_option (\<lambda>l. endTime (link_leg l)) (backLink s' (st_stop_id nxt))
                  = Some (timeToSeconds (arrival_time nxt))
         else s' = s"
  using assms by (auto simp: relaxBus_def Let_def split: option.splits if_splits)

text \<open>
  Claim C4, at a failing input. In the feed at midnight the start stop \<open>A\<close> has the label
  0 after the initial walk legs. The walk candidate from \<open>B\<close> that reaches \<open>A\<close> at 160 is
  not smaller than that label, yet \<open>relaxWalk\<close> accepts it: the label of \<open>A\<close> becomes 160
  and its back-link points to \<open>B\<close>. Nor is a dequeued entry of time 160 for \<open>A\<close> skipped
  while the label is 0. The test \<open>minArrivalTime.get(id) || Infinity\<close> reads a label of 0
  as no label.
\<close>

theorem zero_label_accepts_later_arrival:
  "minArrivalTime nightInit ''A'' = Some 0
   \<and> map_sum id (\<lambda>s. (minArrivalTime s ''A'', map_option prevStopId (backLink s ''A'')))
        (relaxWalk nightFeed ''B'' 80 \<lparr>tr_toStopId = ''A'', walkTime = 80, tr_distance = 111.195\<rparr> nightInit)
       = Inr (Some 160, Some ''B'')
   \<and> \<not> greater_bound 160 (labelOrInfinity (minArrivalTime nightInit) ''A'')"
  by (simp add: nightInit_def initStart_def WALK_SPEED_MPS_value double_eval night_eval)

text \<open>
  The main loop breaks with a final stop only at a stop whose identifier is the
  \<open>stop_id\<close> of an element of \<open>endStops\<close>. So a query whose end elements carry no
  \<open>stop_id\<close> never has the status OK.
\<close>

lemma loopBody_break:
  "loopBody pf serviceId endStopIds element s = Break final s' \<Longrightarrow> final \<in> endStopIds"
  by (auto simp: loopBody_def split: prod.splits option.splits if_splits sum.splits)

lemma dijkstra_final:
  "dijkstra fuel pf serviceId endStopIds s = Some (Inr (Some u, s')) \<Longrightarrow> Some u \<in> endStopIds"
proof (induction fuel arbitrary: s)
  case 0
  then show ?case by simp
next
  case (Suc fuel)
  show ?case
  proof (cases "pq s")
    case Nil
    with Suc.prems show ?thesis by simp
  next
    case (Cons element collection)
    show ?thesis
    proof (cases "loopBody pf serviceId endStopIds element (s\<lparr>pq := collection\<rparr>)")
      case (Continue s1)
      with Suc.prems Cons have "dijkstra fuel pf serviceId endStopIds s1 = Some (Inr (Some u, s'))"
        by simp
      then show ?thesis by (rule Suc.IH)
    next
      case (Break final s1)
      with Suc.prems Cons have "final = Some u" by simp
      with Break loopBody_break show ?thesis by blast
    next
      case (Throw e)
      with Suc.prems Cons show ?thesis by simp
    qed
  qed
qed

lemma no_stop_id_no_itinerary:
  assumes "\<forall>e\<in>set (findStopsWithinRadius (pf_dataManager pf) b MAX_WALK_METERS). sw_stop_id e = None"
    and "findItinerary fuel pf a b date = Some (Inr r)"
  shows "status r \<noteq> OK"
proof
  assume ok: "status r = OK"
  from assms(1) have none: "Some u \<notin> set (map sw_stop_id (findStopsWithinRadius (pf_dataManager pf) b MAX_WALK_METERS))" for u
    by auto
  from assms(2) ok obtain sid u s' where
    "dijkstra fuel pf sid (set (map sw_stop_id (findStopsWithinRadius (pf_dataManager pf) b MAX_WALK_METERS)))
       (fold (initStart a (int (getHours date) * 3600 + int (getMinutes date) * 60 + int (getSeconds date)))
          (findStopsWithinRadius (pf_dataManager pf) a MAX_WALK_METERS)
          \<lparr>pq = [], minArrivalTime = Map.empty, backLink = Map.empty\<rparr>) = Some (Inr (Some u, s'))"
    by (auto simp: findItinerary_def Let_def noItinerary_def
        split: option.splits sum.splits if_splits prod.splits)
  from dijkstra_final[OF this] none show False by blast
qed

text \<open>
  Claim C5, at a failing input. The elements that \<open>findStopsWithinRadius\<close> returns carry
  the stop, its distance and its identifier as \<open>stop_id\<close>, so the end stop \<open>C\<close> is
  recognised. The query at midnight ends with status OK and four legs:
  a walk to \<open>B\<close> from 0 to 80, a walk from \<open>B\<close> to \<open>A\<close> from 80 to 160, the bus from \<open>A\<close> to
  \<open>C\<close> from 30 to 1200, and the final walk. The second leg ends at 160, after the third
  has started at 30: the chain of times is broken. The bus leg was made when \<open>A\<close> was
  expanded at its label 0; the label and the back-link of \<open>A\<close> were then replaced by the
  later walk from \<open>B\<close>, which the zero label let through.
\<close>

theorem night_itinerary_breaks_chain:
  "map sw_stop_id (findStopsWithinRadius (pf_dataManager nightPathfinder) atC MAX_WALK_METERS)
     = [Some ''C'']
   \<and> map_option (map_sum id (\<lambda>r. (status r, map summary (path r))))
        (findItinerary 4 nightPathfinder atA atC nightDate)
     = Some (Inr (OK,
         [(WALK, None, Some ''B'', 0, 80),
          (WALK, Some ''B'', Some ''A'', 80, 160),
          (BUS, Some ''A'', Some ''C'', 30, 1200),
          (WALK, Some ''C'', None, 1200, 1200)]))"
  by (simp add: findItinerary_def night_service night_start nightDate_simps reconstructPath_def
        initStart_def WALK_SPEED_MPS_value double_eval night_eval dijkstra_numeral
        equatorDistance_def followLinks.simps MAX_ARRAY_LENGTH_def)

section \<open>Errors of the journey planner\<close>







text \<open>
  On a cycle of two back-links the walk back never meets \<open>START\<close>; it ends with the
  RangeError of the array of legs.
\<close>

lemma followLinks_cycle:
  assumes "links a = Some la" and "links b = Some lb"
    and "prevStopId la = b" and "prevStopId lb = a" and "a \<noteq> ''START''" and "b \<noteq> ''START''"
  shows "followLinks links la acc = Inl RangeError \<and> followLinks links lb acc = Inl RangeError"
proof (induction "MAX_ARRAY_LENGTH - length acc" arbitrary: acc rule: less_induct)
  case less
  show ?case
  proof (cases "MAX_ARRAY_LENGTH \<le> length acc")
    case True
    with assms show ?thesis by (simp add: followLinks.simps[of links la] followLinks.simps[of links lb])
  next
    case False
    have sa: "MAX_ARRAY_LENGTH - length (acc @ [link_leg la]) < MAX_ARRAY_LENGTH - length acc"
      and sb: "MAX_ARRAY_LENGTH - length (acc @ [link_leg lb]) < MAX_ARRAY_LENGTH - length acc"
      using False by simp_all
    from less[OF sa] less[OF sb] False assms show ?thesis
      by (simp add: followLinks.simps[of links la acc] followLinks.simps[of links lb acc])
  qed
qed

lemma followLinks_into_cycle:
  assumes "prevStopId lc \<noteq> ''START''"
    and "links (prevStopId lc) \<noteq> None"
    and "prevStopId (the (links (prevStopId lc))) \<noteq> ''START''"
    and "links (prevStopId (the (links (prevStopId lc)))) \<noteq> None"
    and "prevStopId (the (links (prevStopId (the (links (prevStopId lc)))))) = prevStopId lc"
  shows "followLinks links lc acc = Inl RangeError"
proof -
  from assms(2) obtain la where la: "links (prevStopId lc) = Some la" by auto
  with assms(4) obtain lb where lb: "links (prevStopId la) = Some lb" by auto
  from assms(3,5) la lb have c: "prevStopId la \<noteq> ''START''" "prevStopId lb = prevStopId lc"
    by simp_all
  from followLinks_cycle[OF la lb refl c(2) assms(1) c(1)]
  have "followLinks links la (acc @ [link_leg lc]) = Inl RangeError" by blast
  with assms(1) la show ?thesis
    by (simp add: followLinks.simps[of links lc acc])
qed

section \<open>Facts about the feed with the trip back\<close>

lemma loopFeed_simps:
  "masterStops loopFeed = loopStops"
  "calculateDistance loopFeed = equatorDistance"
  "findStopsWithinRadius loopFeed = withinRadius equatorDistance loopStops"
  "calendar loopFeed = [weekdays ''A'']"
  "calendarDates loopFeed = []"
  "tripsByTripId loopFeed = [''L1'' \<mapsto> demoTrip ''L1'' ''A'', ''L2'' \<mapsto> demoTrip ''L2'' ''A'',
                        ''L3'' \<mapsto> demoTrip ''L3'' ''A'']"
  "stopTimesByTrip loopFeed = [''L1'' \<mapsto> [loopEvents ! 0, loopEvents ! 1],
                          ''L2'' \<mapsto> [loopEvents ! 2, loopEvents ! 3],
                          ''L3'' \<mapsto> [loopEvents ! 4, loopEvents ! 5]]"
  "stopTimesByStop loopFeed = [''A'' \<mapsto> [loopEvents ! 0, loopEvents ! 3, loopEvents ! 4],
                          ''X'' \<mapsto> [loopEvents ! 1, loopEvents ! 2],
                          ''D'' \<mapsto> [loopEvents ! 5]]"
  "stopsById loopFeed = [''A'' \<mapsto> demoStop ''A'' 0 0, ''X'' \<mapsto> demoStop ''X'' 0 1,
                    ''D'' \<mapsto> demoStop ''D'' 0 2]"
  "routesById loopFeed = Map.empty"
  by (simp_all add: loopFeed_def emptyDataManager_def)

lemma loop_service: "getServiceId loopFeed nightDate = Some ''A''"
  by (simp add: getServiceId_def loopFeed_simps rule_matches_def nightDate_string dayColumn_def
      weekdays_def nightDate_simps)

lemma loop_transferMap:
  "prebuildTransferMap loopFeed = [''A'' \<mapsto> [], ''X'' \<mapsto> [], ''D'' \<mapsto> []]"
  unfolding prebuildTransferMap_def loopFeed_simps Let_def
  by (simp add: transfersFrom_def loopFeed_simps loopStops_def demoStop_def equatorDistance_def
      MAX_WALK_METERS_def upt_rec Let_def numeral_2_eq_2)

lemma loop_start:
  "withinRadius equatorDistance loopStops atA MAX_WALK_METERS
     = [\<lparr>sw_stop_id = Some ''A'', sw_stop = demoStop ''A'' 0 0, sw_distance = 0\<rparr>]"
  "withinRadius equatorDistance loopStops atD MAX_WALK_METERS
     = [\<lparr>sw_stop_id = Some ''D'', sw_stop = demoStop ''D'' 0 2, sw_distance = 0\<rparr>]"
  "lat atD = Some 0" "lon atD = Some 2"
  by (simp_all add: withinRadius_def loopStops_def demoStop_def equatorDistance_def
      atA_def atD_def MAX_WALK_METERS_def)

lemma loop_getters:
  "getStop loopFeed ''A'' = Some (demoStop ''A'' 0 0)"
  "getStop loopFeed ''X'' = Some (demoStop ''X'' 0 1)"
  "getStop loopFeed ''D'' = Some (demoStop ''D'' 0 2)"
  "getStopTimes loopFeed ''L1'' = [loopEvents ! 0, loopEvents ! 1]"
  "getStopTimes loopFeed ''L2'' = [loopEvents ! 2, loopEvents ! 3]"
  "getStopTimes loopFeed ''L3'' = [loopEvents ! 4, loopEvents ! 5]"
  "getRoute loopFeed ''R1'' = None"
  by (simp_all add: getStop_def getStopTimes_def getRoute_def loopFeed_simps)

text \<open>
  With the zero label of the start stop \<open>A\<close>, the trip back from \<open>X\<close> replaces the
  back-link of \<open>A\<close>, and the back-links of \<open>A\<close> and \<open>X\<close> point at each other. The search
  reaches \<open>D\<close>, and the walk back from \<open>D\<close> never meets \<open>START\<close>: the query ends with the
  RangeError.
\<close>

lemma trip_back_query_throws:
  "findItinerary 4 (newLocalPathfinder loopFeed) atA atD nightDate = Some (Inl RangeError)"
  by (simp add: findItinerary_def newLocalPathfinder_def loop_service loop_start nightDate_simps
        loop_transferMap loopFeed_simps loop_getters loopEvents_def demoEvent_def demoTrip_def
        demoStop_def timeToSeconds_def initStart_def WALK_SPEED_MPS_value double_eval
        relaxBus_def relaxWalk_def labelOrInfinity_def loopBody_def reconstructPath_def
        equatorDistance_def followLinks_into_cycle dijkstra_numeral Let_def)

section \<open>Facts about the feed with the stray stop\<close>








section \<open>Errors of the journey planner: the claim\<close>




section \<open>Position interpolator\<close>

text \<open>
  \<open>interpolateAlongRoute\<close>, given an array of vertices: the position it returns at
  progress 0 is the vertex at the index nearest to the from-stop, and at progress 1 the
  vertex at the index nearest to the to-stop.
\<close>

lemma slice_props:
  assumes "i < j" "j < length xs"
  shows "length (slice xs i (j + 1)) = j + 1 - i"
    and "slice xs i (j + 1) ! 0 = xs ! i"
    and "slice xs i (j + 1) ! (j - i) = xs ! j"
  using assms by (simp_all add: slice_def)

lemma pathSegmentOf_ends:
  assumes "i \<noteq> j" "i < length xs" "j < length xs"
  shows "2 \<le> length (pathSegmentOf xs i j)"
    and "pathSegmentOf xs i j ! 0 = xs ! i"
    and "pathSegmentOf xs i j ! (length (pathSegmentOf xs i j) - 1) = xs ! j"
proof -
  consider "i < j" | "j < i" using assms(1) by linarith
  then have "2 \<le> length (pathSegmentOf xs i j) \<and> pathSegmentOf xs i j ! 0 = xs ! i
      \<and> pathSegmentOf xs i j ! (length (pathSegmentOf xs i j) - 1) = xs ! j"
  proof cases
    case 1
    with slice_props[OF 1 assms(3)] show ?thesis
      by (simp add: pathSegmentOf_def)
  next
    case 2
    from slice_props[OF 2 assms(2)] 2 show ?thesis
      by (simp add: pathSegmentOf_def rev_nth)
  qed
  then show "2 \<le> length (pathSegmentOf xs i j)"
    and "pathSegmentOf xs i j ! 0 = xs ! i"
    and "pathSegmentOf xs i j ! (length (pathSegmentOf xs i j) - 1) = xs ! j"
    by simp_all
qed

lemma length_cumulativeDistances [simp]:
  "length (cumulativeDistances dm v t vs) = length vs"
  by (induction vs arbitrary: v t) (simp_all add: Let_def)

lemma cumulativeDistances_above:
  "positive_steps dm (v # vs) \<Longrightarrow> x \<in> set (cumulativeDistances dm v t vs) \<Longrightarrow> t < x"
proof (induction vs arbitrary: v t)
  case Nil
  then show ?case by simp
next
  case (Cons w ws)
  let ?d = "t + calculateDistance dm (Some (snd v)) (Some (fst v)) (Some (snd w)) (Some (fst w))"
  from Cons.prems(1) have pos: "t < ?d" and rest: "positive_steps dm (w # ws)" by simp_all
  from Cons.prems(2) consider "x = ?d" | "x \<in> set (cumulativeDistances dm w ?d ws)"
    by (auto simp: Let_def)
  then show ?case
  proof cases
    case 1
    with pos show ?thesis by simp
  next
    case 2
    from Cons.IH[OF rest 2] pos show ?thesis by simp
  qed
qed

lemma cumulativeDistances_increasing:
  "positive_steps dm (v # vs) \<Longrightarrow> sorted_wrt (<) (t # cumulativeDistances dm v t vs)"
proof (induction vs arbitrary: v t)
  case Nil
  then show ?case by simp
next
  case (Cons w ws)
  let ?d = "t + calculateDistance dm (Some (snd v)) (Some (fst v)) (Some (snd w)) (Some (fst w))"
  from Cons.prems have rest: "positive_steps dm (w # ws)" by simp
  have above: "\<forall>x\<in>set (cumulativeDistances dm v t (w # ws)). t < x"
    using cumulativeDistances_above[OF Cons.prems] by blast
  from Cons.IH[OF rest, of ?d] above show ?case
    by (simp add: Let_def)
qed

lemma locate_start:
  "d1 \<le> d2 \<Longrightarrow> locate (v1 # v2 # vs) (d1 # d2 # ds) d1 p
     = Some \<lparr>pos_lat = snd v1, pos_lon = fst v1, pos_progress = p\<rparr>"
  by simp

lemma locate_end:
  "length ds = length vs \<Longrightarrow> vs \<noteq> [] \<Longrightarrow> sorted_wrt (<) (d1 # ds) \<Longrightarrow>
     locate (v1 # vs) (d1 # ds) (last (d1 # ds)) p
       = Some \<lparr>pos_lat = snd (last vs), pos_lon = fst (last vs), pos_progress = p\<rparr>"
proof (induction vs arbitrary: v1 d1 ds)
  case Nil
  then show ?case by simp
next
  case (Cons v2 vs)
  then obtain d2 ds' where ds: "ds = d2 # ds'" by (cases ds) auto
  show ?case
  proof (cases vs)
    case Nil
    with Cons.prems ds show ?thesis by (simp add: Let_def)
  next
    case (Cons v3 vs')
    with Cons.prems ds obtain d3 ds'' where ds': "ds' = d3 # ds''" by (cases ds') auto
    have lt: "d2 < last (d2 # ds')"
      using Cons.prems(3) ds ds' by (auto simp: last_in_set)
    have "locate (v2 # vs) (d2 # ds') (last (d2 # ds')) p
       = Some \<lparr>pos_lat = snd (last vs), pos_lon = fst (last vs), pos_progress = p\<rparr>"
      using Cons.IH[of ds' d2 v2] Cons.prems ds \<open>vs = v3 # vs'\<close> by simp
    with lt ds ds' \<open>vs = v3 # vs'\<close> show ?thesis by simp
  qed
qed


lemma interpolate_unfold:
  assumes "findNearestPointOnRoute dm route fromLat fromLon = Some i"
    and "findNearestPointOnRoute dm route toLat toLon = Some j"
    and "i \<noteq> j" and "pathSegmentOf route i j = v1 # v2 # vs"
    and "last (cumulativeDistances dm v1 0 (v2 # vs)) \<noteq> 0"
  shows "interpolateAlongRoute dm route fromLat fromLon toLat toLon p
     = (case locate (v1 # v2 # vs) (0 # cumulativeDistances dm v1 0 (v2 # vs))
              (last (cumulativeDistances dm v1 0 (v2 # vs)) * p) p of
          Some r \<Rightarrow> Some r
        | None \<Rightarrow> Some \<lparr>pos_lat = snd (last (v2 # vs)), pos_lon = fst (last (v2 # vs)),
                         pos_progress = p\<rparr>)"
proof -
  have n: "cumulativeDistances dm v1 0 (v2 # vs) \<noteq> []"
    by (simp add: Let_def)
  have l: "(0 # cumulativeDistances dm v1 0 (v2 # vs)) ! (length (0 # cumulativeDistances dm v1 0 (v2 # vs)) - 1)
      = last (cumulativeDistances dm v1 0 (v2 # vs))"
    using n by (simp add: last_conv_nth)
  have v: "(v1 # v2 # vs) ! (length (v1 # v2 # vs) - 1) = last (v2 # vs)"
    by (simp add: last_conv_nth)
  show ?thesis
    unfolding interpolateAlongRoute_def assms(1,2) option.case Let_def distancesAlong_def assms(4)
      list.case l v
    using assms(3,5) by simp
qed

lemma interpolate_some:
  assumes "interpolateAlongRoute dm route fromLat fromLon toLat toLon p = Some r"
    and "findNearestPointOnRoute dm route fromLat fromLon = Some i"
    and "findNearestPointOnRoute dm route toLat toLon = Some j"
  shows "i \<noteq> j \<and> (\<exists>v1 v2 vs. pathSegmentOf route i j = v1 # v2 # vs
            \<and> last (cumulativeDistances dm v1 0 (v2 # vs)) \<noteq> 0)"
proof -
  from assms have ne: "i \<noteq> j"
    by (auto simp: interpolateAlongRoute_def split: if_splits)
  from assms ne have len: "\<not> length (pathSegmentOf route i j) < 2"
    by (auto simp: interpolateAlongRoute_def Let_def split: if_splits)
  then obtain v1 v2 vs where seg: "pathSegmentOf route i j = v1 # v2 # vs"
    by (cases "pathSegmentOf route i j" rule: list.exhaust[case_names Nil Cons])
       (auto simp: neq_Nil_conv Suc_le_eq intro: list.exhaust)
  have n: "cumulativeDistances dm v1 0 (v2 # vs) \<noteq> []"
    by (simp add: Let_def)
  from assms ne len have "distancesAlong dm (pathSegmentOf route i j)
      ! (length (distancesAlong dm (pathSegmentOf route i j)) - 1) \<noteq> 0"
    by (auto simp: interpolateAlongRoute_def Let_def split: if_splits)
  then have "last (cumulativeDistances dm v1 0 (v2 # vs)) \<noteq> 0"
    using n unfolding seg distancesAlong_def by (simp add: last_conv_nth)
  with ne seg show ?thesis by blast
qed


lemma interpolate_at_start:
  assumes near: "findNearestPointOnRoute dm route fromLat fromLon = Some i"
      "findNearestPointOnRoute dm route toLat toLon = Some j"
    and range: "i < length route" "j < length route"
    and nonneg: "\<And>la lo la' lo'. 0 \<le> calculateDistance dm la lo la' lo'"
    and some: "interpolateAlongRoute dm route fromLat fromLon toLat toLon 0 = Some r"
  shows "r = \<lparr>pos_lat = snd (route ! i), pos_lon = fst (route ! i), pos_progress = 0\<rparr>"
proof -
  from interpolate_some[OF some near] obtain v1 v2 vs where ne: "i \<noteq> j"
    and seg: "pathSegmentOf route i j = v1 # v2 # vs"
    and tot: "last (cumulativeDistances dm v1 0 (v2 # vs)) \<noteq> 0"
    by blast
  have v1: "v1 = route ! i"
    using pathSegmentOf_ends(2)[OF ne range] seg by simp
  obtain d2 ds where cum: "cumulativeDistances dm v1 0 (v2 # vs) = d2 # ds" and d2: "0 \<le> d2"
    using nonneg by (simp add: Let_def)
  have "locate (v1 # v2 # vs) (0 # d2 # ds) 0 0
      = Some \<lparr>pos_lat = snd v1, pos_lon = fst v1, pos_progress = 0\<rparr>"
    using d2 by (rule locate_start)
  with interpolate_unfold[OF near ne seg tot, of 0] some cum v1 show ?thesis
    by simp
qed

lemma interpolate_at_end:
  assumes near: "findNearestPointOnRoute dm route fromLat fromLon = Some i"
      "findNearestPointOnRoute dm route toLat toLon = Some j"
    and range: "i < length route" "j < length route" and ne: "i \<noteq> j"
    and pos: "positive_steps dm (pathSegmentOf route i j)"
  shows "interpolateAlongRoute dm route fromLat fromLon toLat toLon 1
     = Some \<lparr>pos_lat = snd (route ! j), pos_lon = fst (route ! j), pos_progress = 1\<rparr>"
proof -
  from pathSegmentOf_ends(1)[OF ne range] obtain v1 v2 vs
    where seg: "pathSegmentOf route i j = v1 # v2 # vs"
    by (cases "pathSegmentOf route i j"; cases "tl (pathSegmentOf route i j)") auto
  let ?ds = "cumulativeDistances dm v1 0 (v2 # vs)"
  have n: "?ds \<noteq> []" by (simp add: Let_def)
  have inc: "sorted_wrt (<) (0 # ?ds)"
    using cumulativeDistances_increasing[of dm v1 "v2 # vs" 0] pos seg by simp
  have "0 < last ?ds"
    using cumulativeDistances_above[of dm v1 "v2 # vs" "last ?ds" 0] pos seg n by simp
  then have tot: "last ?ds \<noteq> 0" by simp
  have "last (v1 # v2 # vs) = (v1 # v2 # vs) ! (length (v1 # v2 # vs) - 1)"
    by (rule last_conv_nth) simp
  also have "\<dots> = route ! j"
    using pathSegmentOf_ends(3)[OF ne range] unfolding seg .
  finally have lastv: "last (v2 # vs) = route ! j" by simp
  have "locate (v1 # v2 # vs) (0 # ?ds) (last (0 # ?ds)) 1
      = Some \<lparr>pos_lat = snd (last (v2 # vs)), pos_lon = fst (last (v2 # vs)), pos_progress = 1\<rparr>"
  proof (rule locate_end[OF _ _ inc])
    show "length ?ds = length (v2 # vs)" by (rule length_cumulativeDistances)
    show "v2 # vs \<noteq> []" by simp
  qed
  then have "locate (v1 # v2 # vs) (0 # ?ds) (last ?ds * 1) 1
      = Some \<lparr>pos_lat = snd (route ! j), pos_lon = fst (route ! j), pos_progress = 1\<rparr>"
    using n lastv by simp
  with interpolate_unfold[OF near ne seg tot, of 1] show ?thesis
    by simp
qed

section \<open>Position interpolator: the claim\<close>






end
